theory Spec2Isabelle
  imports Main "HOL-Library.Multiset"
begin

section \<open>Values crossing the boundary between the handlers and the store\<close>

text \<open>
  \<open>server.ts\<close> keeps all of its state in one SQLite database, opened through
  better-sqlite3, and talks to it with SQL statements whose parameters come straight from
  the request. Two kinds of value meet there.

  A \<open>jsval\<close> is what a handler holds: a field of the JSON body or of a socket payload.
  \<open>JUndefined\<close> is an absent field, \<open>JObject\<close> a plain object (its content plays no
  part: no statement of \<open>server.ts\<close> has a named parameter). Numbers are the whole
  numbers; a number with a fraction is outside this model.

  A \<open>sqlval\<close> is a value of SQLite: NULL, an integer, a floating-point number (whole,
  as the numbers are) or a text.
\<close>

datatype jsval =
    JUndefined
  | JNull
  | JBool bool
  | JNumber int
  | JString string
  | JArray "jsval list"
  | JObject

datatype sqlval = Null | Integer int | Real int | Text string

text \<open>
  What a statement can throw: better-sqlite3's \<open>TypeError\<close> and \<open>RangeError\<close> while it
  binds the arguments, and SQLite's constraint failures while the statement runs.
\<close>

datatype error =
    BindTypeError
  | TwoParameterObjects
  | TooManyParameters
  | TooFewParameters
  | NotNullFailed string
  | UniqueFailed string
  | ForeignKeyFailed

definition error_message :: "error \<Rightarrow> string" where
  "error_message e =
     (case e of
        BindTypeError \<Rightarrow> ''SQLite3 can only bind numbers, strings, bigints, buffers, and null''
      | TwoParameterObjects \<Rightarrow> ''You cannot specify named parameters in two different objects''
      | TooManyParameters \<Rightarrow> ''Too many parameter values were provided''
      | TooFewParameters \<Rightarrow> ''Too few parameter values were provided''
      | NotNullFailed c \<Rightarrow> ''NOT NULL constraint failed: '' @ c
      | UniqueFailed c \<Rightarrow> ''UNIQUE constraint failed: '' @ c
      | ForeignKeyFailed \<Rightarrow> ''FOREIGN KEY constraint failed'')"

subsection \<open>What the platform decides\<close>

text \<open>
  Three conversions are the work of SQLite and of JavaScript, not of \<open>server.ts\<close>, and
  rest on floating-point arithmetic. They are parameters of everything that follows, and
  every property below is proved for all of them:
  \<^item> \<open>number_of_text\<close>: the whole number that SQLite reads a text as when the text meets
    a column of numeric affinity, if it reads it as one (SQLite reads \<open>2\<close>, \<open>2.0\<close> and
    \<open> 2\<close> as 2 and does not read \<open>abc\<close> as a number). A text that denotes a number
    that is not whole is kept as a text here; it equals no key.
  \<^item> \<open>text_of_real\<close>: the text that SQLite makes of a whole floating-point number when
    the number meets a column of text affinity (of 5 it makes \<open>5.0\<close>).
  \<^item> \<open>string_of_number\<close>: the string that JavaScript makes of a whole number in a
    template string.
\<close>

record platform =
  number_of_text :: "string \<Rightarrow> int option"
  text_of_real :: "int \<Rightarrow> string"
  string_of_number :: "int \<Rightarrow> string"

subsection \<open>Binding the arguments of a statement\<close>

text \<open>
  One value bound to one parameter. better-sqlite3 binds every JavaScript number as a
  floating-point number, \<open>undefined\<close> and \<open>null\<close> as NULL, and refuses anything else
  but a string.
\<close>

definition bind_value :: "jsval \<Rightarrow> error + sqlval" where
  "bind_value v =
     (case v of
        JUndefined \<Rightarrow> Inr Null
      | JNull \<Rightarrow> Inr Null
      | JNumber i \<Rightarrow> Inr (Real i)
      | JString s \<Rightarrow> Inr (Text s)
      | _ \<Rightarrow> Inl BindTypeError)"

text \<open>
  The values of one array, bound one after the other to the next free parameters of a
  statement with \<open>n\<close> of them; \<open>bound\<close> holds what is bound so far.
\<close>

fun bind_values :: "nat \<Rightarrow> sqlval list \<Rightarrow> jsval list \<Rightarrow> error + sqlval list" where
  "bind_values n bound [] = Inr bound"
| "bind_values n bound (v # vs) =
     (case bind_value v of
        Inl e \<Rightarrow> Inl e
      | Inr p \<Rightarrow>
          if n \<le> length bound then Inl TooManyParameters
          else bind_values n (bound @ [p]) vs)"

text \<open>
  The arguments of \<open>.run\<close>, \<open>.get\<close> or \<open>.all\<close>, from left to right: an array
  stands for its elements, a plain object for the named parameters (of which there are
  none, and only one such object is allowed), anything else for itself. In the end every
  parameter must be bound.
\<close>

fun bind_args :: "nat \<Rightarrow> bool \<Rightarrow> sqlval list \<Rightarrow> jsval list \<Rightarrow> error + sqlval list" where
  "bind_args n seen_object bound [] =
     (if length bound < n then Inl TooFewParameters else Inr bound)"
| "bind_args n seen_object bound (JArray vs # args) =
     (case bind_values n bound vs of
        Inl e \<Rightarrow> Inl e
      | Inr bound' \<Rightarrow> bind_args n seen_object bound' args)"
| "bind_args n seen_object bound (JObject # args) =
     (if seen_object then Inl TwoParameterObjects else bind_args n True bound args)"
| "bind_args n seen_object bound (v # args) =
     (case bind_values n bound [v] of
        Inl e \<Rightarrow> Inl e
      | Inr bound' \<Rightarrow> bind_args n seen_object bound' args)"

definition bind_params :: "nat \<Rightarrow> jsval list \<Rightarrow> error + sqlval list" where
  "bind_params n args = bind_args n False [] args"

subsection \<open>Decimal notation\<close>

definition digit_char :: "nat \<Rightarrow> char" where
  "digit_char d = ''0123456789'' ! (d mod 10)"

fun string_of_nat :: "nat \<Rightarrow> string" where
  "string_of_nat n =
     (if n < 10 then [digit_char n] else string_of_nat (n div 10) @ [digit_char (n mod 10)])"

declare string_of_nat.simps [simp del]

definition string_of_int :: "int \<Rightarrow> string" where
  "string_of_int i = (if i < 0 then CHR ''-'' # string_of_nat (nat (- i)) else string_of_nat (nat i))"

subsection \<open>Column affinity and comparison\<close>

text \<open>
  A column declared \<open>INTEGER\<close> turns a whole floating-point number into the integer, and
  a text that denotes a whole number into that integer, both when a value is stored and
  when a bound parameter is compared with the column. A column declared \<open>REAL\<close> does the
  same towards the floating-point number. A column declared \<open>TEXT\<close> turns a number into
  text: an integer into its decimal digits, a floating-point number as the platform does.
\<close>

definition integer_affinity :: "platform \<Rightarrow> sqlval \<Rightarrow> sqlval" where
  "integer_affinity pf v =
     (case v of
        Real i \<Rightarrow> Integer i
      | Text s \<Rightarrow> (case number_of_text pf s of Some i \<Rightarrow> Integer i | None \<Rightarrow> Text s)
      | _ \<Rightarrow> v)"

definition real_affinity :: "platform \<Rightarrow> sqlval \<Rightarrow> sqlval" where
  "real_affinity pf v =
     (case v of
        Integer i \<Rightarrow> Real i
      | Text s \<Rightarrow> (case number_of_text pf s of Some i \<Rightarrow> Real i | None \<Rightarrow> Text s)
      | _ \<Rightarrow> v)"

definition text_affinity :: "platform \<Rightarrow> sqlval \<Rightarrow> sqlval" where
  "text_affinity pf v =
     (case v of
        Integer i \<Rightarrow> Text (string_of_int i)
      | Real i \<Rightarrow> Text (text_of_real pf i)
      | _ \<Rightarrow> v)"

text \<open>A value as a \<open>TEXT\<close> column stores it: the text, or nothing for NULL.\<close>

definition as_text :: "platform \<Rightarrow> sqlval \<Rightarrow> string option" where
  "as_text pf v =
     (case text_affinity pf v of Text s \<Rightarrow> Some s | _ \<Rightarrow> None)"

text \<open>
  \<open>column = ?\<close> on an \<open>INTEGER\<close> column holding \<open>i\<close>: NULL equals nothing, and a text
  that is not a number equals no integer.
\<close>

definition int_column_eq :: "platform \<Rightarrow> int \<Rightarrow> sqlval \<Rightarrow> bool" where
  "int_column_eq pf i v = (integer_affinity pf v = Integer i)"

text \<open>\<open>column = ?\<close> on a \<open>TEXT\<close> column holding \<open>s\<close>.\<close>

definition text_column_eq :: "platform \<Rightarrow> string \<Rightarrow> sqlval \<Rightarrow> bool" where
  "text_column_eq pf s v = (as_text pf v = Some s)"

subsection \<open>Template strings\<close>

definition join_commas :: "string list \<Rightarrow> string" where
  "join_commas xs = (case xs of [] \<Rightarrow> [] | y # ys \<Rightarrow> y @ concat (map (\<lambda>z. CHR '','' # z) ys))"

text \<open>
  JavaScript's conversion of a value to a string, as a template string applies it. An
  array is the strings of its elements joined by commas, where \<open>null\<close> and
  \<open>undefined\<close> elements count as empty.
\<close>

fun js_to_string :: "platform \<Rightarrow> jsval \<Rightarrow> string" where
  "js_to_string pf JUndefined = ''undefined''"
| "js_to_string pf JNull = ''null''"
| "js_to_string pf (JBool b) = (if b then ''true'' else ''false'')"
| "js_to_string pf (JNumber i) = string_of_number pf i"
| "js_to_string pf (JString s) = s"
| "js_to_string pf (JArray vs) =
     join_commas (map (\<lambda>v. if v = JNull \<or> v = JUndefined then [] else js_to_string pf v) vs)"
| "js_to_string pf JObject = ''[object Object]''"

section \<open>The persistent store\<close>

text \<open>
  One record per table of the schema that \<open>db.exec\<close> creates, one field per column.
  A \<open>TEXT NOT NULL\<close> column holds a text, a nullable \<open>TEXT\<close> column an optional text.
  \<open>created_at\<close> is filled by \<open>CURRENT_TIMESTAMP\<close>, which has a resolution of one
  second and whose text form orders as time does: it is a number of seconds here.
  A column that references \<open>users(id)\<close> or \<open>loads(id)\<close> holds an integer, because
  better-sqlite3 opens every connection with foreign-key enforcement switched on (its
  SQLite is built with \<open>SQLITE_DEFAULT_FOREIGN_KEYS=1\<close>) and \<open>server.ts\<close> never
  issues \<open>PRAGMA foreign_keys = OFF\<close>: a statement that would store anything but the
  key of an existing row fails (see \<open>references\<close> below).
\<close>

record user =
  user_id :: int
  user_email :: string
  user_password :: string
  user_role :: string
  user_name :: string
  user_company :: "string option"
  user_phone :: "string option"
  user_is_approved :: int
  user_created_at :: nat

record load =
  load_id :: int
  load_shipper_id :: int
  load_pickup_location :: string
  load_delivery_location :: string
  load_weight :: "string option"
  load_truck_type :: "string option"
  load_rate :: sqlval
  load_contact_details :: "string option"
  load_status :: string
  load_created_at :: nat

record truck =
  truck_id :: int
  truck_driver_id :: int
  truck_current_location :: string
  truck_truck_type :: string
  truck_availability_date :: string
  truck_contact :: "string option"
  truck_created_at :: nat

record application =
  application_id :: int
  application_load_id :: int
  application_driver_id :: int
  application_status :: string
  application_created_at :: nat

record message =
  msg_id :: int
  msg_sender_id :: int
  msg_receiver_id :: int
  msg_content :: string
  msg_created_at :: nat

record review =
  review_id :: int
  review_reviewer_id :: int
  review_reviewee_id :: int
  review_rating :: sqlval
  review_comment :: "string option"
  review_created_at :: nat

text \<open>
  Each table is the list of its rows in the order they were inserted. Every \<open>id\<close> is
  \<open>INTEGER PRIMARY KEY AUTOINCREMENT\<close>, so SQLite remembers per table the largest key it
  ever handed out (the \<open>_seq\<close> fields, its \<open>sqlite_sequence\<close> table).
\<close>

record database =
  users :: "user list"
  loads :: "load list"
  trucks :: "truck list"
  applications :: "application list"
  messages :: "message list"
  reviews :: "review list"
  users_seq :: int
  loads_seq :: int
  trucks_seq :: int
  applications_seq :: int
  messages_seq :: int
  reviews_seq :: int

definition init_db :: database where
  "init_db =
     \<lparr>users = [], loads = [], trucks = [], applications = [], messages = [], reviews = [],
      users_seq = 0, loads_seq = 0, trucks_seq = 0, applications_seq = 0, messages_seq = 0,
      reviews_seq = 0\<rparr>"

text \<open>
  The key an \<open>AUTOINCREMENT\<close> column gives the next row: one more than the largest key
  in the table and the largest key ever handed out.
\<close>

definition next_rowid :: "int \<Rightarrow> int list \<Rightarrow> int" where
  "next_rowid seq ids = fold max ids seq + 1"

subsection \<open>Statement plumbing\<close>

definition and_then :: "error + 'a \<Rightarrow> ('a \<Rightarrow> error + 'b) \<Rightarrow> error + 'b" where
  "and_then r f = (case r of Inl e \<Rightarrow> Inl e | Inr v \<Rightarrow> f v)"

text \<open>A \<open>NOT NULL\<close> column of integer affinity, and one of text affinity.\<close>

definition required :: "platform \<Rightarrow> string \<Rightarrow> sqlval \<Rightarrow> error + sqlval" where
  "required pf column v =
     (if integer_affinity pf v = Null then Inl (NotNullFailed column)
      else Inr (integer_affinity pf v))"

definition required_text :: "platform \<Rightarrow> string \<Rightarrow> sqlval \<Rightarrow> error + string" where
  "required_text pf column v =
     (case as_text pf v of None \<Rightarrow> Inl (NotNullFailed column) | Some s \<Rightarrow> Inr s)"

text \<open>
  \<open>FOREIGN KEY (...) REFERENCES t(id)\<close>: the value must be the key of a row of \<open>t\<close>.
  (SQL lets a NULL through here; every referencing column of the schema is also
  \<open>NOT NULL\<close> and that check runs first, so a NULL never reaches this one.)
\<close>

definition references :: "int list \<Rightarrow> sqlval \<Rightarrow> error + int" where
  "references keys v =
     (case v of
        Integer i \<Rightarrow> if i \<in> set keys then Inr i else Inl ForeignKeyFailed
      | _ \<Rightarrow> Inl ForeignKeyFailed)"

subsection \<open>The statements of \<open>server.ts\<close>\<close>

text \<open>
  Each statement binds its arguments with \<open>bind_params\<close> and then reads its parameters
  by position: \<open>ps ! 0\<close> is the first \<open>?\<close>. (A successful \<open>bind_params n\<close> yields
  exactly \<open>n\<close> values.) A statement whose only argument is a string or a number takes
  the bound value itself.
\<close>

text \<open>\<open>SELECT * FROM users WHERE id = ?\<close>, read with \<open>.get\<close>: the row or nothing.\<close>

definition select_user_by_id :: "platform \<Rightarrow> database \<Rightarrow> sqlval \<Rightarrow> user option" where
  "select_user_by_id pf d v = find (\<lambda>u. int_column_eq pf (user_id u) v) (users d)"

text \<open>\<open>SELECT * FROM users WHERE email = ? AND password = ?\<close>, read with \<open>.get\<close>.\<close>

definition select_user_by_credentials ::
  "platform \<Rightarrow> database \<Rightarrow> jsval \<Rightarrow> jsval \<Rightarrow> error + user option" where
  "select_user_by_credentials pf d email password =
     and_then (bind_params 2 [email, password]) (\<lambda>ps.
       Inr (find (\<lambda>u. text_column_eq pf (user_email u) (ps ! 0) \<and>
                       text_column_eq pf (user_password u) (ps ! 1))
              (users d)))"

text \<open>
  \<open>INSERT INTO users (email, password, role, name, company, phone, is_approved)
  VALUES (?, ?, ?, ?, ?, ?, ?)\<close>. The arguments are bound first; then the \<open>NOT NULL\<close>
  columns are checked in column order, then \<open>email UNIQUE\<close>. The result is the new
  key (\<open>lastInsertRowid\<close>) and the new database. The last argument is the number that
  \<open>signup\<close> computes, so the last parameter is that number whatever the other arguments
  are, and \<open>is_approved\<close> stores it as the integer.
\<close>

definition insert_user ::
  "platform \<Rightarrow> nat \<Rightarrow> jsval \<Rightarrow> jsval \<Rightarrow> jsval \<Rightarrow> jsval \<Rightarrow> jsval \<Rightarrow> jsval \<Rightarrow> int \<Rightarrow> database
     \<Rightarrow> error + (int \<times> database)" where
  "insert_user pf now email password role name company phone is_approved d =
     and_then (bind_params 7 [email, password, role, name, company, phone, JNumber is_approved])
       (\<lambda>ps.
     and_then (required_text pf ''users.email'' (ps ! 0)) (\<lambda>e.
     and_then (required_text pf ''users.password'' (ps ! 1)) (\<lambda>pw.
     and_then (required_text pf ''users.role'' (ps ! 2)) (\<lambda>r.
     and_then (required_text pf ''users.name'' (ps ! 3)) (\<lambda>n.
       if e \<in> set (map user_email (users d)) then Inl (UniqueFailed ''users.email'')
       else
         let rowid = next_rowid (users_seq d) (map user_id (users d));
             row = \<lparr>user_id = rowid, user_email = e, user_password = pw, user_role = r,
                    user_name = n, user_company = as_text pf (ps ! 4),
                    user_phone = as_text pf (ps ! 5), user_is_approved = is_approved,
                    user_created_at = now\<rparr>
         in Inr (rowid, d\<lparr>users := users d @ [row], users_seq := rowid\<rparr>))))))"

text \<open>\<open>UPDATE users SET is_approved = 1 WHERE id = ?\<close>.\<close>

definition update_user_approve :: "platform \<Rightarrow> database \<Rightarrow> sqlval \<Rightarrow> database" where
  "update_user_approve pf d v =
     d\<lparr>users := map (\<lambda>u. if int_column_eq pf (user_id u) v then u\<lparr>user_is_approved := 1\<rparr> else u)
                    (users d)\<rparr>"

text \<open>
  \<open>INSERT INTO loads (shipper_id, pickup_location, delivery_location, weight, truck_type,
  rate, contact_details) VALUES (?, ?, ?, ?, ?, ?, ?)\<close>; \<open>status\<close> takes its default.
\<close>

definition insert_load ::
  "platform \<Rightarrow> nat \<Rightarrow> jsval \<Rightarrow> jsval \<Rightarrow> jsval \<Rightarrow> jsval \<Rightarrow> jsval \<Rightarrow> jsval \<Rightarrow> jsval \<Rightarrow> database
     \<Rightarrow> error + (int \<times> database)" where
  "insert_load pf now shipper_id pickup_location delivery_location weight truck_type rate
       contact_details d =
     and_then (bind_params 7 [shipper_id, pickup_location, delivery_location, weight,
                 truck_type, rate, contact_details]) (\<lambda>ps.
     and_then (required pf ''loads.shipper_id'' (ps ! 0)) (\<lambda>sh.
     and_then (required_text pf ''loads.pickup_location'' (ps ! 1)) (\<lambda>pl.
     and_then (required_text pf ''loads.delivery_location'' (ps ! 2)) (\<lambda>dl.
     and_then (references (map user_id (users d)) sh) (\<lambda>sh'.
       let rowid = next_rowid (loads_seq d) (map load_id (loads d));
           row = \<lparr>load_id = rowid, load_shipper_id = sh', load_pickup_location = pl,
                  load_delivery_location = dl, load_weight = as_text pf (ps ! 3),
                  load_truck_type = as_text pf (ps ! 4), load_rate = real_affinity pf (ps ! 5),
                  load_contact_details = as_text pf (ps ! 6), load_status = ''available'',
                  load_created_at = now\<rparr>
       in Inr (rowid, d\<lparr>loads := loads d @ [row], loads_seq := rowid\<rparr>))))))"

text \<open>\<open>SELECT * FROM loads WHERE id = ?\<close>, read with \<open>.get\<close>.\<close>

definition select_load_by_id :: "platform \<Rightarrow> database \<Rightarrow> sqlval \<Rightarrow> load option" where
  "select_load_by_id pf d v = find (\<lambda>l. int_column_eq pf (load_id l) v) (loads d)"

text \<open>
  \<open>DELETE FROM loads WHERE id = ?\<close>. A load that an application still references
  cannot go: the foreign key of \<open>applications.load_id\<close> has no \<open>ON DELETE\<close> action.
\<close>

definition delete_load :: "platform \<Rightarrow> database \<Rightarrow> sqlval \<Rightarrow> error + database" where
  "delete_load pf d v =
     (if (\<exists>l \<in> set (loads d). int_column_eq pf (load_id l) v) \<and>
         (\<exists>a \<in> set (applications d). int_column_eq pf (application_load_id a) v)
      then Inl ForeignKeyFailed
      else Inr (d\<lparr>loads := filter (\<lambda>l. \<not> int_column_eq pf (load_id l) v) (loads d)\<rparr>))"

text \<open>
  \<open>INSERT INTO trucks (driver_id, current_location, truck_type, availability_date, contact)
  VALUES (?, ?, ?, ?, ?)\<close>.
\<close>

definition insert_truck ::
  "platform \<Rightarrow> nat \<Rightarrow> jsval \<Rightarrow> jsval \<Rightarrow> jsval \<Rightarrow> jsval \<Rightarrow> jsval \<Rightarrow> database
     \<Rightarrow> error + (int \<times> database)" where
  "insert_truck pf now driver_id current_location truck_type availability_date contact d =
     and_then (bind_params 5 [driver_id, current_location, truck_type, availability_date,
                 contact]) (\<lambda>ps.
     and_then (required pf ''trucks.driver_id'' (ps ! 0)) (\<lambda>dr.
     and_then (required_text pf ''trucks.current_location'' (ps ! 1)) (\<lambda>cl.
     and_then (required_text pf ''trucks.truck_type'' (ps ! 2)) (\<lambda>tt.
     and_then (required_text pf ''trucks.availability_date'' (ps ! 3)) (\<lambda>ad.
     and_then (references (map user_id (users d)) dr) (\<lambda>dr'.
       let rowid = next_rowid (trucks_seq d) (map truck_id (trucks d));
           row = \<lparr>truck_id = rowid, truck_driver_id = dr', truck_current_location = cl,
                  truck_truck_type = tt, truck_availability_date = ad,
                  truck_contact = as_text pf (ps ! 4), truck_created_at = now\<rparr>
       in Inr (rowid, d\<lparr>trucks := trucks d @ [row], trucks_seq := rowid\<rparr>)))))))"

text \<open>
  \<open>INSERT INTO applications (load_id, driver_id) VALUES (?, ?)\<close>; \<open>status\<close> takes its
  default.
\<close>

definition insert_application ::
  "platform \<Rightarrow> nat \<Rightarrow> jsval \<Rightarrow> jsval \<Rightarrow> database \<Rightarrow> error + (int \<times> database)" where
  "insert_application pf now load_key driver_id d =
     and_then (bind_params 2 [load_key, driver_id]) (\<lambda>ps.
     and_then (required pf ''applications.load_id'' (ps ! 0)) (\<lambda>l.
     and_then (required pf ''applications.driver_id'' (ps ! 1)) (\<lambda>dr.
     and_then (references (map load_id (loads d)) l) (\<lambda>l'.
     and_then (references (map user_id (users d)) dr) (\<lambda>dr'.
       let rowid = next_rowid (applications_seq d) (map application_id (applications d));
           row = \<lparr>application_id = rowid, application_load_id = l',
                  application_driver_id = dr', application_status = ''pending'',
                  application_created_at = now\<rparr>
       in Inr (rowid, d\<lparr>applications := applications d @ [row],
                        applications_seq := rowid\<rparr>))))))"

text \<open>
  \<open>INSERT INTO messages (sender_id, receiver_id, content) VALUES (?, ?, ?)\<close>, the
  statement of both \<open>POST /api/messages/send\<close> and the socket's \<open>send_message\<close>.
  \<open>content TEXT NOT NULL\<close> refuses NULL only: the empty text is a text.
\<close>

definition insert_message ::
  "platform \<Rightarrow> nat \<Rightarrow> jsval \<Rightarrow> jsval \<Rightarrow> jsval \<Rightarrow> database \<Rightarrow> error + (int \<times> database)" where
  "insert_message pf now sender_id receiver_id content d =
     and_then (bind_params 3 [sender_id, receiver_id, content]) (\<lambda>ps.
     and_then (required pf ''messages.sender_id'' (ps ! 0)) (\<lambda>sn.
     and_then (required pf ''messages.receiver_id'' (ps ! 1)) (\<lambda>rc.
     and_then (required_text pf ''messages.content'' (ps ! 2)) (\<lambda>ct.
     and_then (references (map user_id (users d)) sn) (\<lambda>sn'.
     and_then (references (map user_id (users d)) rc) (\<lambda>rc'.
       let rowid = next_rowid (messages_seq d) (map msg_id (messages d));
           row = \<lparr>msg_id = rowid, msg_sender_id = sn', msg_receiver_id = rc',
                  msg_content = ct, msg_created_at = now\<rparr>
       in Inr (rowid, d\<lparr>messages := messages d @ [row], messages_seq := rowid\<rparr>)))))))"

text \<open>\<open>SELECT * FROM messages WHERE id = ?\<close>, read with \<open>.get\<close>.\<close>

definition select_message_by_id :: "platform \<Rightarrow> database \<Rightarrow> sqlval \<Rightarrow> message option" where
  "select_message_by_id pf d v = find (\<lambda>m. int_column_eq pf (msg_id m) v) (messages d)"

text \<open>
  \<open>SELECT * FROM messages WHERE (sender_id = ? AND receiver_id = ?) OR (sender_id = ? AND
  receiver_id = ?) ORDER BY created_at ASC\<close>, read with \<open>.all\<close>. The table has no index
  but its key, so SQLite walks it in key order, keeps the rows that match and sorts them
  by \<open>created_at\<close>; its sorter leaves rows of equal \<open>created_at\<close> in the order the walk
  met them. The statement itself names no second sort key.
\<close>

definition messages_by_key :: "database \<Rightarrow> message list" where
  "messages_by_key d = sort_key msg_id (messages d)"

definition select_conversation ::
  "platform \<Rightarrow> database \<Rightarrow> sqlval \<Rightarrow> sqlval \<Rightarrow> sqlval \<Rightarrow> sqlval \<Rightarrow> message list" where
  "select_conversation pf d p1 p2 p3 p4 =
     sort_key msg_created_at
       (filter (\<lambda>m. (int_column_eq pf (msg_sender_id m) p1 \<and> int_column_eq pf (msg_receiver_id m) p2)
                  \<or> (int_column_eq pf (msg_sender_id m) p3 \<and> int_column_eq pf (msg_receiver_id m) p4))
          (messages_by_key d))"

text \<open>
  \<open>INSERT INTO reviews (reviewer_id, reviewee_id, rating, comment) VALUES (?, ?, ?, ?)\<close>.
\<close>

definition insert_review ::
  "platform \<Rightarrow> nat \<Rightarrow> jsval \<Rightarrow> jsval \<Rightarrow> jsval \<Rightarrow> jsval \<Rightarrow> database
     \<Rightarrow> error + (int \<times> database)" where
  "insert_review pf now reviewer_id reviewee_id rating comment d =
     and_then (bind_params 4 [reviewer_id, reviewee_id, rating, comment]) (\<lambda>ps.
     and_then (required pf ''reviews.reviewer_id'' (ps ! 0)) (\<lambda>rv.
     and_then (required pf ''reviews.reviewee_id'' (ps ! 1)) (\<lambda>re.
     and_then (required pf ''reviews.rating'' (ps ! 2)) (\<lambda>rt.
     and_then (references (map user_id (users d)) rv) (\<lambda>rv'.
     and_then (references (map user_id (users d)) re) (\<lambda>re'.
       let rowid = next_rowid (reviews_seq d) (map review_id (reviews d));
           row = \<lparr>review_id = rowid, review_reviewer_id = rv', review_reviewee_id = re',
                  review_rating = rt, review_comment = as_text pf (ps ! 3),
                  review_created_at = now\<rparr>
       in Inr (rowid, d\<lparr>reviews := reviews d @ [row], reviews_seq := rowid\<rparr>)))))))"

section \<open>The server\<close>

text \<open>
  Besides the database the server holds the rooms of socket.io: which connection joined
  which room. A connection is a number. What a handler sends back is a \<open>reply\<close>:
  \<^item> \<open>Json status body\<close> for \<open>res.status(status).json(body)\<close> (\<open>res.json\<close> alone is
    status 200);
  \<^item> \<open>Thrown e\<close> when a statement throws in a route that does not catch it: Express
    catches it and answers the request with status 500;
  \<^item> \<open>Uncaught e\<close> when a statement throws in a socket listener: nothing catches it and
    the Node process ends;
  \<^item> \<open>NoReply\<close> for a socket listener that ran to its end.
\<close>

record server =
  db :: database
  rooms :: "(nat \<times> string) list"

definition init_server :: server where
  "init_server = \<lparr>db = init_db, rooms = []\<rparr>"

datatype body =
    ErrorBody string
  | UserBody "user option"
  | MessageBody "message option"
  | MessagesBody "message list"
  | IdBody int
  | SuccessBody

datatype reply = Json nat body | Thrown error | Uncaught error | NoReply

text \<open>
  \<open>io.to(room).emit(event, payload)\<close> is recorded as the triple of room, event and
  payload. A handler yields its reply, the events it published, in order, and the server
  it leaves behind.
\<close>

type_synonym publication = "string \<times> string \<times> message option"
type_synonym outcome = "reply \<times> publication list \<times> server"

text \<open>What a connection receives of a list of publications: those to rooms it is in.\<close>

definition delivered :: "(nat \<times> string) list \<Rightarrow> nat \<Rightarrow> publication list \<Rightarrow> publication list" where
  "delivered rs socket ps = filter (\<lambda>(room, event, payload). (socket, room) \<in> set rs) ps"

text \<open>
  What is left when the process ends: the database file, and no connection. A request
  after that is a request to the server started anew on that file.
\<close>

definition process_ended :: "server \<Rightarrow> server" where
  "process_ended s = s\<lparr>rooms := []\<rparr>"

subsection \<open>The \<open>auth\<close> middleware\<close>

definition auth :: "platform \<Rightarrow> database \<Rightarrow> string option \<Rightarrow> reply + user" where
  "auth pf d authorization =
     (case authorization of
        None \<Rightarrow> Inl (Json 401 (ErrorBody ''Unauthorized''))
      | Some userId \<Rightarrow>
          if userId = [] then Inl (Json 401 (ErrorBody ''Unauthorized''))
          else (case select_user_by_id pf d (Text userId) of
                  None \<Rightarrow> Inl (Json 401 (ErrorBody ''Unauthorized''))
                | Some user \<Rightarrow> Inr user))"

text \<open>
  A route registered as \<open>app.post(path, auth, handler)\<close>: the handler runs only when
  \<open>auth\<close> calls \<open>next()\<close>, and then with \<open>req.user\<close> set.
\<close>

definition with_auth ::
  "platform \<Rightarrow> string option \<Rightarrow> (user \<Rightarrow> server \<Rightarrow> outcome) \<Rightarrow> server \<Rightarrow> outcome" where
  "with_auth pf authorization handler s =
     (case auth pf (db s) authorization of
        Inl r \<Rightarrow> (r, [], s)
      | Inr user \<Rightarrow> handler user s)"

subsection \<open>Routes on users\<close>

text \<open>\<open>POST /api/auth/signup\<close>: the only route that catches what its statements throw.\<close>

definition signup ::
  "platform \<Rightarrow> nat \<Rightarrow> jsval \<Rightarrow> jsval \<Rightarrow> jsval \<Rightarrow> jsval \<Rightarrow> jsval \<Rightarrow> jsval \<Rightarrow> server \<Rightarrow> outcome" where
  "signup pf now email password role name company phone s =
     (let is_approved = (if role = JString ''admin'' then 1 else 0) in
      case insert_user pf now email password role name company phone is_approved (db s) of
        Inl e \<Rightarrow> (Json 400 (ErrorBody (error_message e)), [], s)
      | Inr (lastInsertRowid, d') \<Rightarrow>
          (Json 200 (UserBody (select_user_by_id pf d' (Real lastInsertRowid))), [],
           s\<lparr>db := d'\<rparr>))"

text \<open>\<open>POST /api/auth/login\<close>.\<close>

definition login :: "platform \<Rightarrow> jsval \<Rightarrow> jsval \<Rightarrow> server \<Rightarrow> outcome" where
  "login pf email password s =
     (case select_user_by_credentials pf (db s) email password of
        Inl e \<Rightarrow> (Thrown e, [], s)
      | Inr None \<Rightarrow> (Json 401 (ErrorBody ''Invalid credentials''), [], s)
      | Inr (Some user) \<Rightarrow> (Json 200 (UserBody (Some user)), [], s))"

text \<open>\<open>POST /api/admin/users/:id/approve\<close>.\<close>

definition approve :: "platform \<Rightarrow> string option \<Rightarrow> string \<Rightarrow> server \<Rightarrow> outcome" where
  "approve pf authorization id_param =
     with_auth pf authorization (\<lambda>user s.
       if user_role user \<noteq> ''admin'' then (Json 403 (ErrorBody ''Forbidden''), [], s)
       else (Json 200 SuccessBody, [],
             s\<lparr>db := update_user_approve pf (db s) (Text id_param)\<rparr>))"

subsection \<open>Routes on loads, trucks, applications and reviews\<close>

text \<open>\<open>POST /api/loads\<close>.\<close>

definition post_loads ::
  "platform \<Rightarrow> nat \<Rightarrow> string option \<Rightarrow> jsval \<Rightarrow> jsval \<Rightarrow> jsval \<Rightarrow> jsval \<Rightarrow> jsval \<Rightarrow> jsval
     \<Rightarrow> server \<Rightarrow> outcome" where
  "post_loads pf now authorization pickup_location delivery_location weight truck_type rate
       contact_details =
     with_auth pf authorization (\<lambda>user s.
       if user_role user \<noteq> ''shipper''
       then (Json 403 (ErrorBody ''Only shippers can post loads''), [], s)
       else
         (case insert_load pf now (JNumber (user_id user)) pickup_location delivery_location
                 weight truck_type rate contact_details (db s) of
            Inl e \<Rightarrow> (Thrown e, [], s)
          | Inr (lastInsertRowid, d') \<Rightarrow> (Json 200 (IdBody lastInsertRowid), [], s\<lparr>db := d'\<rparr>)))"

text \<open>\<open>DELETE /api/loads/:id\<close>.\<close>

definition delete_loads :: "platform \<Rightarrow> string option \<Rightarrow> string \<Rightarrow> server \<Rightarrow> outcome" where
  "delete_loads pf authorization id_param =
     with_auth pf authorization (\<lambda>user s.
       case select_load_by_id pf (db s) (Text id_param) of
         None \<Rightarrow> (Json 403 (ErrorBody ''Unauthorized''), [], s)
       | Some l \<Rightarrow>
           if load_shipper_id l \<noteq> user_id user \<and> user_role user \<noteq> ''admin''
           then (Json 403 (ErrorBody ''Unauthorized''), [], s)
           else
             (case delete_load pf (db s) (Text id_param) of
                Inl e \<Rightarrow> (Thrown e, [], s)
              | Inr d' \<Rightarrow> (Json 200 SuccessBody, [], s\<lparr>db := d'\<rparr>)))"

text \<open>\<open>POST /api/trucks\<close>.\<close>

definition post_trucks ::
  "platform \<Rightarrow> nat \<Rightarrow> string option \<Rightarrow> jsval \<Rightarrow> jsval \<Rightarrow> jsval \<Rightarrow> jsval \<Rightarrow> server \<Rightarrow> outcome" where
  "post_trucks pf now authorization current_location truck_type availability_date contact =
     with_auth pf authorization (\<lambda>user s.
       if user_role user \<noteq> ''driver''
       then (Json 403 (ErrorBody ''Only drivers can post trucks''), [], s)
       else
         (case insert_truck pf now (JNumber (user_id user)) current_location truck_type
                 availability_date contact (db s) of
            Inl e \<Rightarrow> (Thrown e, [], s)
          | Inr (lastInsertRowid, d') \<Rightarrow> (Json 200 (IdBody lastInsertRowid), [], s\<lparr>db := d'\<rparr>)))"

text \<open>\<open>POST /api/loads/:id/apply\<close>.\<close>

definition post_apply :: "platform \<Rightarrow> nat \<Rightarrow> string option \<Rightarrow> string \<Rightarrow> server \<Rightarrow> outcome" where
  "post_apply pf now authorization id_param =
     with_auth pf authorization (\<lambda>user s.
       if user_role user \<noteq> ''driver''
       then (Json 403 (ErrorBody ''Only drivers can apply''), [], s)
       else
         (case insert_application pf now (JString id_param) (JNumber (user_id user)) (db s) of
            Inl e \<Rightarrow> (Thrown e, [], s)
          | Inr (lastInsertRowid, d') \<Rightarrow> (Json 200 (IdBody lastInsertRowid), [], s\<lparr>db := d'\<rparr>)))"

text \<open>\<open>POST /api/reviews\<close>.\<close>

definition post_reviews ::
  "platform \<Rightarrow> nat \<Rightarrow> string option \<Rightarrow> jsval \<Rightarrow> jsval \<Rightarrow> jsval \<Rightarrow> server \<Rightarrow> outcome" where
  "post_reviews pf now authorization reviewee_id rating comment =
     with_auth pf authorization (\<lambda>user s.
       case insert_review pf now (JNumber (user_id user)) reviewee_id rating comment (db s) of
         Inl e \<Rightarrow> (Thrown e, [], s)
       | Inr (lastInsertRowid, d') \<Rightarrow> (Json 200 SuccessBody, [], s\<lparr>db := d'\<rparr>))"

subsection \<open>Messages: the two routes and the socket\<close>

text \<open>
  \<open>POST /api/messages/send\<close>: inserts, reads the row back and answers with it. It
  never touches \<open>io\<close>.
\<close>

definition post_messages_send ::
  "platform \<Rightarrow> nat \<Rightarrow> string option \<Rightarrow> jsval \<Rightarrow> jsval \<Rightarrow> server \<Rightarrow> outcome" where
  "post_messages_send pf now authorization receiverId content =
     with_auth pf authorization (\<lambda>user s.
       case insert_message pf now (JNumber (user_id user)) receiverId content (db s) of
         Inl e \<Rightarrow> (Thrown e, [], s)
       | Inr (lastInsertRowid, d') \<Rightarrow>
           (Json 200 (MessageBody (select_message_by_id pf d' (Real lastInsertRowid))), [],
            s\<lparr>db := d'\<rparr>))"

text \<open>\<open>GET /api/messages/:otherId\<close>.\<close>

definition get_messages :: "platform \<Rightarrow> string option \<Rightarrow> string \<Rightarrow> server \<Rightarrow> outcome" where
  "get_messages pf authorization otherId =
     with_auth pf authorization (\<lambda>user s.
       (Json 200
          (MessagesBody
             (select_conversation pf (db s) (Real (user_id user)) (Text otherId) (Text otherId)
                (Real (user_id user)))),
        [], s))"

text \<open>The room of a user: the template string \<open>user_${userId}\<close>.\<close>

definition user_room :: "platform \<Rightarrow> jsval \<Rightarrow> string" where
  "user_room pf userId = ''user_'' @ js_to_string pf userId"

text \<open>The socket's \<open>join\<close>: \<open>socket.join\<close> adds the room to the rooms of the connection.\<close>

definition on_join :: "platform \<Rightarrow> nat \<Rightarrow> jsval \<Rightarrow> server \<Rightarrow> outcome" where
  "on_join pf socket userId s =
     (NoReply, [], s\<lparr>rooms := List.insert (socket, user_room pf userId) (rooms s)\<rparr>)"

text \<open>
  The socket's \<open>send_message\<close>: inserts, reads the row back and emits it to the
  receiver's room, then to the sender's. Nothing catches what the insert throws.
\<close>

definition on_send_message ::
  "platform \<Rightarrow> nat \<Rightarrow> jsval \<Rightarrow> jsval \<Rightarrow> jsval \<Rightarrow> server \<Rightarrow> outcome" where
  "on_send_message pf now senderId receiverId content s =
     (case insert_message pf now senderId receiverId content (db s) of
        Inl e \<Rightarrow> (Uncaught e, [], process_ended s)
      | Inr (lastInsertRowid, d') \<Rightarrow>
          (let message = select_message_by_id pf d' (Real lastInsertRowid) in
           (NoReply,
            [(user_room pf receiverId, ''receive_message'', message),
             (user_room pf senderId, ''receive_message'', message)],
            s\<lparr>db := d'\<rparr>)))"

subsection \<open>Requests and reachable states\<close>

text \<open>
  Every route and socket event that runs a statement other than \<open>SELECT\<close> or changes
  the rooms, together with \<open>login\<close> and the history route. The remaining routes
  (\<open>/api/users/me\<close>, \<open>/api/admin/users\<close>, the listings and \<open>/api/stats\<close>) only read.
  A request carries the fields that its handler reads off the JSON body or the payload,
  \<open>JUndefined\<close> for a field that is not there, besides the \<open>authorization\<close> header
  and the parameter of the path.
\<close>

datatype request =
    Signup jsval jsval jsval jsval jsval jsval
  | Login jsval jsval
  | Approve "string option" string
  | PostLoads "string option" jsval jsval jsval jsval jsval jsval
  | DeleteLoads "string option" string
  | PostTrucks "string option" jsval jsval jsval jsval
  | PostApply "string option" string
  | PostReviews "string option" jsval jsval jsval
  | PostMessagesSend "string option" jsval jsval
  | GetMessages "string option" string
  | Join nat jsval
  | SendMessage jsval jsval jsval

text \<open>One request handled to its end, at wall-clock time \<open>now\<close>.\<close>

fun handle :: "platform \<Rightarrow> nat \<Rightarrow> request \<Rightarrow> server \<Rightarrow> outcome" where
  "handle pf now (Signup email password role name company phone) s =
     signup pf now email password role name company phone s"
| "handle pf now (Login email password) s = login pf email password s"
| "handle pf now (Approve authorization id_param) s = approve pf authorization id_param s"
| "handle pf now (PostLoads authorization pl dl w tt rate cd) s =
     post_loads pf now authorization pl dl w tt rate cd s"
| "handle pf now (DeleteLoads authorization id_param) s =
     delete_loads pf authorization id_param s"
| "handle pf now (PostTrucks authorization cl tt ad ct) s =
     post_trucks pf now authorization cl tt ad ct s"
| "handle pf now (PostApply authorization id_param) s =
     post_apply pf now authorization id_param s"
| "handle pf now (PostReviews authorization reviewee_id rating comment) s =
     post_reviews pf now authorization reviewee_id rating comment s"
| "handle pf now (PostMessagesSend authorization receiverId content) s =
     post_messages_send pf now authorization receiverId content s"
| "handle pf now (GetMessages authorization otherId) s =
     get_messages pf authorization otherId s"
| "handle pf now (Join socket userId) s = on_join pf socket userId s"
| "handle pf now (SendMessage senderId receiverId content) s =
     on_send_message pf now senderId receiverId content s"

definition server_after :: "platform \<Rightarrow> nat \<Rightarrow> request \<Rightarrow> server \<Rightarrow> server" where
  "server_after pf now r s = snd (snd (handle pf now r s))"

inductive reachable :: "platform \<Rightarrow> server \<Rightarrow> bool" for pf :: platform where
  reachable_init: "reachable pf init_server"
| reachable_step: "reachable pf s \<Longrightarrow> reachable pf (server_after pf now r s)"

section \<open>Vocabulary of the properties\<close>

text \<open>
  The user a bound parameter resolves to: the key of the row that
  \<open>SELECT * FROM users WHERE id = ?\<close> finds for it.
\<close>

definition user_key :: "platform \<Rightarrow> database \<Rightarrow> sqlval \<Rightarrow> int option" where
  "user_key pf d v = map_option user_id (select_user_by_id pf d v)"

text \<open>The row a successful insert into \<open>messages\<close> creates, and the database it leaves.\<close>

definition new_message :: "nat \<Rightarrow> database \<Rightarrow> int \<Rightarrow> int \<Rightarrow> string \<Rightarrow> message" where
  "new_message now d i j t =
     \<lparr>msg_id = next_rowid (messages_seq d) (map msg_id (messages d)), msg_sender_id = i,
      msg_receiver_id = j, msg_content = t, msg_created_at = now\<rparr>"

definition add_message :: "database \<Rightarrow> message \<Rightarrow> database" where
  "add_message d m = d\<lparr>messages := messages d @ [m], messages_seq := msg_id m\<rparr>"

text \<open>A message belongs to the conversation of the unordered pair \<open>{a, b}\<close>.\<close>

definition in_conversation :: "int \<Rightarrow> int \<Rightarrow> message \<Rightarrow> bool" where
  "in_conversation a b m = ({msg_sender_id m, msg_receiver_id m} = {a, b})"

text \<open>Earlier by creation time, and by key among messages created in the same second.\<close>

definition before :: "message \<Rightarrow> message \<Rightarrow> bool" where
  "before x y =
     (msg_created_at x < msg_created_at y \<or>
      (msg_created_at x = msg_created_at y \<and> msg_id x < msg_id y))"

text \<open>
  What \<open>GET /api/messages/:otherId\<close> answers to an authenticated caller: the route
  binds the caller's key and the path parameter, each twice, in this order.
\<close>

definition history :: "platform \<Rightarrow> database \<Rightarrow> int \<Rightarrow> string \<Rightarrow> message list" where
  "history pf d caller otherId =
     select_conversation pf d (Real caller) (Text otherId) (Text otherId) (Real caller)"

text \<open>
  Two properties of a database that every request keeps. The keys of \<open>messages\<close> grow
  along the table; and every message names, as sender and as receiver, the key of a user.
\<close>

definition keys_increase :: "database \<Rightarrow> bool" where
  "keys_increase d = sorted_wrt (<) (map msg_id (messages d))"


text \<open>
  What one request can do to the users and messages: leave the messages alone and keep
  every user key, or append one message between two users under a key larger than the
  others.
\<close>

definition users_kept :: "database \<Rightarrow> database \<Rightarrow> bool" where
  "users_kept d d' =
     (messages d' = messages d \<and> set (map user_id (users d)) \<subseteq> set (map user_id (users d')))"

definition message_added :: "database \<Rightarrow> database \<Rightarrow> bool" where
  "message_added d d' =
     (\<exists>m. d' = add_message d m \<and>
        msg_sender_id m \<in> set (map user_id (users d)) \<and>
        msg_receiver_id m \<in> set (map user_id (users d)) \<and>
        (\<forall>x \<in> set (messages d). msg_id x < msg_id m))"

text \<open>
  The requests whose handlers write \<open>is_approved\<close>: sign-up and the admin's approval.
\<close>

fun writes_approval :: "request \<Rightarrow> bool" where
  "writes_approval (Signup email password role name company phone) = True"
| "writes_approval (Approve authorization id_param) = True"
| "writes_approval other = False"

text \<open>
  The server after \<open>UPDATE users SET is_approved = 1 WHERE id = n\<close>: the flag of the
  user with key \<open>n\<close> is 1, and nothing else differs.
\<close>

definition approve_user :: "int \<Rightarrow> server \<Rightarrow> server" where
  "approve_user n s =
     s\<lparr>db := (db s)\<lparr>users := map (\<lambda>u. if user_id u = n then u\<lparr>user_is_approved := 1\<rparr> else u)
                               (users (db s))\<rparr>\<rparr>"

subsection \<open>A platform and servers for the examples\<close>

text \<open>
  The examples are run on \<open>sample_platform\<close>. It reads a text as a number when the text
  is an optionally signed run of decimal digits, writes a whole floating-point number as
  its digits followed by \<open>.0\<close>, and a number in a template string as its digits. On the
  texts and numbers of the examples (keys such as \<open>1\<close> and \<open>2\<close>, names such as
  \<open>ann\<close>) SQLite and JavaScript do the same. SQLite reads more texts as numbers than this
  (\<open>2.0\<close>, or \<open>2\<close> between blanks), and both write large numbers with an exponent: the
  theorems do not depend on \<open>sample_platform\<close>, only the examples do.
\<close>

text \<open>The digits are the characters with codes 48 to 57.\<close>

definition digit_value :: "char \<Rightarrow> nat option" where
  "digit_value c =
     (let code = (of_char c :: nat) in
      if 48 \<le> code \<and> code \<le> 57 then Some (code - 48) else None)"

fun nat_of_digits :: "nat \<Rightarrow> string \<Rightarrow> nat option" where
  "nat_of_digits acc [] = Some acc"
| "nat_of_digits acc (c # cs) =
     (case digit_value c of
        None \<Rightarrow> None
      | Some d \<Rightarrow> nat_of_digits (10 * acc + d) cs)"

definition plain_decimal :: "string \<Rightarrow> int option" where
  "plain_decimal s =
     (case s of
        [] \<Rightarrow> None
      | c # cs \<Rightarrow>
          if c = CHR ''-'' then
            (if cs = [] then None else map_option (\<lambda>n. - int n) (nat_of_digits 0 cs))
          else if c = CHR ''+'' then
            (if cs = [] then None else map_option int (nat_of_digits 0 cs))
          else map_option int (nat_of_digits 0 s))"

definition sample_platform :: platform where
  "sample_platform =
     \<lparr>number_of_text = plain_decimal,
      text_of_real = (\<lambda>i. string_of_int i @ ''.0''),
      string_of_number = string_of_int\<rparr>"

text \<open>
  A server two sign-ups away from the start: Ann, a driver, has key 1 and Bob, an
  admin, has key 2. In \<open>ann_wrote_bob\<close> Ann has sent Bob a message over the socket at
  second 12; in \<open>chatting\<close> Bob has answered over the route within the same second. In
  \<open>bob_listening\<close> connection 7 has joined as Bob. \<open>late\<close> is \<open>ann_and_bob\<close> after a
  message of Ann to Bob that the clock stamped with second 20.
\<close>

definition ann_and_bob :: server where
  "ann_and_bob =
     server_after sample_platform 11
       (Signup (JString ''bob@example.org'') (JString ''hunter2'') (JString ''admin'')
          (JString ''Bob'') JUndefined JUndefined)
       (server_after sample_platform 10
          (Signup (JString ''ann@example.org'') (JString ''secret'') (JString ''driver'')
             (JString ''Ann'') JUndefined JUndefined)
          init_server)"

definition ann_wrote_bob :: server where
  "ann_wrote_bob =
     server_after sample_platform 12 (SendMessage (JNumber 1) (JNumber 2) (JString ''Hello''))
       ann_and_bob"

definition chatting :: server where
  "chatting =
     server_after sample_platform 12
       (PostMessagesSend (Some ''2'') (JNumber 1) (JString ''Hi back'')) ann_wrote_bob"

definition bob_listening :: server where
  "bob_listening = server_after sample_platform 12 (Join 7 (JNumber 2)) ann_and_bob"


section \<open>Facts about the statements\<close>

lemma and_then_Inr_iff: "and_then r f = Inr y \<longleftrightarrow> (\<exists>v. r = Inr v \<and> f v = Inr y)"
  by (cases r) (simp_all add: and_then_def)

lemma and_then_Inr [simp]: "and_then (Inr v) f = f v"
  by (simp add: and_then_def)

lemma and_then_Inl [simp]: "and_then (Inl e) f = Inl e"
  by (simp add: and_then_def)

lemma required_Inr_iff:
  "required pf c v = Inr w \<longleftrightarrow> (integer_affinity pf v = w \<and> w \<noteq> Null)"
  by (auto simp: required_def)

lemma required_text_Inr_iff: "required_text pf c v = Inr t \<longleftrightarrow> as_text pf v = Some t"
  by (simp add: required_text_def split: option.splits)

lemma references_Inr_iff: "references ks v = Inr i \<longleftrightarrow> (v = Integer i \<and> i \<in> set ks)"
  by (auto simp: references_def split: sqlval.splits)

lemma bind_values_Inr:
  "bind_values n bound vs = Inr r \<Longrightarrow> length bound \<le> n \<Longrightarrow>
     length r \<le> n \<and> (\<exists>ys. r = bound @ ys)"
proof (induction vs arbitrary: bound)
  case Nil
  then show ?case by simp
next
  case (Cons v vs)
  from Cons.prems(1) obtain p where p: "bind_value v = Inr p" and n: "\<not> n \<le> length bound"
    and r: "bind_values n (bound @ [p]) vs = Inr r"
    by (auto split: sum.splits if_splits)
  from n have "length (bound @ [p]) \<le> n" by simp
  from Cons.IH [OF r this] show ?case by auto
qed

lemma bind_args_Inr:
  "bind_args n seen bound args = Inr r \<Longrightarrow> length bound \<le> n \<Longrightarrow>
     length r = n \<and> (\<exists>ys. r = bound @ ys)"
proof (induction n seen bound args rule: bind_args.induct)
  case (1 n seen bound)
  then show ?case by (auto split: if_splits)
next
  case (2 n seen bound vs args)
  from "2.prems"(1) obtain b where b: "bind_values n bound vs = Inr b"
    and r: "bind_args n seen b args = Inr r"
    by (auto split: sum.splits)
  from bind_values_Inr [OF b "2.prems"(2)] have l: "length b \<le> n" and e: "\<exists>ys. b = bound @ ys"
    by auto
  from "2.IH" [OF b r l] e show ?case by auto
next
  case (3 n seen bound args)
  then show ?case by (auto split: if_splits)
qed (auto split: sum.splits if_splits)

lemma bind_params_length: "bind_params n args = Inr ps \<Longrightarrow> length ps = n"
  using bind_args_Inr [of n False "[]" args ps] by (simp add: bind_params_def)

lemma bind_params_first_number:
  assumes "bind_params n (JNumber i # args) = Inr ps"
  shows "ps ! 0 = Real i"
proof -
  from assms have "bind_args n False [Real i] args = Inr ps" and "0 < n"
    by (auto simp: bind_params_def bind_value_def split: if_splits)
  from bind_args_Inr [OF this(1)] this(2) obtain ys where "ps = [Real i] @ ys" by auto
  then show ?thesis by simp
qed

lemma bind_args_last_number:
  "bind_args n seen bound (args @ [JNumber f]) = Inr r \<Longrightarrow> last r = Real f"
proof (induction n seen bound args rule: bind_args.induct)
  case (1 n seen bound)
  then show ?case by (auto simp: bind_value_def split: if_splits)
qed (auto split: sum.splits if_splits)

lemma bind_params_plain:
  "bind_params 3 [JNumber a, JNumber b, JString t] = Inr [Real a, Real b, Text t]"
  "bind_params 3 [JNumber a, JString x, JString t] = Inr [Real a, Text x, Text t]"
  by (simp_all add: bind_params_def bind_value_def)

lemma three_elements: "length ps = 3 \<Longrightarrow> ps = [ps ! 0, ps ! 1, ps ! 2]"
  by (cases ps; cases "tl ps"; cases "tl (tl ps)") auto

lemma fold_max_ge_start: "(a::int) \<le> fold max xs a"
proof (induction xs arbitrary: a)
  case Nil
  show ?case by simp
next
  case (Cons x xs)
  have "a \<le> max x a" by simp
  also have "max x a \<le> fold max xs (max x a)" by (rule Cons.IH)
  finally show ?case by simp
qed

lemma fold_max_ge_member: "(x::int) \<in> set xs \<Longrightarrow> x \<le> fold max xs a"
proof (induction xs arbitrary: a)
  case Nil
  then show ?case by simp
next
  case (Cons y ys)
  show ?case
  proof (cases "x = y")
    case True
    have "x \<le> max y a" using True by simp
    also have "max y a \<le> fold max ys (max y a)" by (rule fold_max_ge_start)
    finally show ?thesis by simp
  next
    case False
    with Cons.prems have "x \<in> set ys" by simp
    then show ?thesis using Cons.IH by simp
  qed
qed

lemma next_rowid_greater: "i \<in> set ids \<Longrightarrow> i < next_rowid seq ids"
  using fold_max_ge_member [of i ids seq] by (simp add: next_rowid_def)

lemma insert_load_frame:
  "insert_load pf now a b c e f g h d = Inr (i, d') \<Longrightarrow>
     users d' = users d \<and> messages d' = messages d"
  by (auto simp: insert_load_def and_then_Inr_iff Let_def)

lemma insert_truck_frame:
  "insert_truck pf now a b c e f d = Inr (i, d') \<Longrightarrow>
     users d' = users d \<and> messages d' = messages d"
  by (auto simp: insert_truck_def and_then_Inr_iff Let_def)

lemma insert_application_frame:
  "insert_application pf now a b d = Inr (i, d') \<Longrightarrow>
     users d' = users d \<and> messages d' = messages d"
  by (auto simp: insert_application_def and_then_Inr_iff Let_def)

lemma insert_review_frame:
  "insert_review pf now a b c e d = Inr (i, d') \<Longrightarrow>
     users d' = users d \<and> messages d' = messages d"
  by (auto simp: insert_review_def and_then_Inr_iff Let_def)

lemma delete_load_frame:
  "delete_load pf d v = Inr d' \<Longrightarrow> users d' = users d \<and> messages d' = messages d"
  by (auto simp: delete_load_def split: if_splits)

lemma select_user_by_id_Some:
  "select_user_by_id pf d v = Some u \<Longrightarrow>
     u \<in> set (users d) \<and> integer_affinity pf v = Integer (user_id u)"
  by (auto simp: select_user_by_id_def int_column_eq_def find_Some_iff)

lemma user_key_Some_iff:
  "user_key pf d v = Some i \<longleftrightarrow>
     (integer_affinity pf v = Integer i \<and> i \<in> set (map user_id (users d)))"
proof
  assume "user_key pf d v = Some i"
  then obtain u where u: "select_user_by_id pf d v = Some u" and i: "user_id u = i"
    by (auto simp: user_key_def)
  from select_user_by_id_Some [OF u] i
  show "integer_affinity pf v = Integer i \<and> i \<in> set (map user_id (users d))"
    by auto
next
  assume a: "integer_affinity pf v = Integer i \<and> i \<in> set (map user_id (users d))"
  then have "find (\<lambda>u. int_column_eq pf (user_id u) v) (users d) \<noteq> None"
    by (auto simp: find_None_iff int_column_eq_def)
  then obtain u where u: "select_user_by_id pf d v = Some u"
    by (auto simp: select_user_by_id_def)
  from select_user_by_id_Some [OF u] a have "user_id u = i" by simp
  with u show "user_key pf d v = Some i" by (simp add: user_key_def)
qed

lemma user_key_Real:
  "user_key pf d (Real i) = (if i \<in> set (map user_id (users d)) then Some i else None)"
proof (cases "i \<in> set (map user_id (users d))")
  case True
  then show ?thesis by (simp add: user_key_Some_iff integer_affinity_def)
next
  case False
  have "user_key pf d (Real i) \<noteq> Some j" for j
    using False by (auto simp: user_key_Some_iff integer_affinity_def)
  with False show ?thesis by (cases "user_key pf d (Real i)") auto
qed

lemma insert_message_Inr_iff:
  "insert_message pf now a b c d = Inr (rowid, d') \<longleftrightarrow>
     (\<exists>ps i j t. bind_params 3 [a, b, c] = Inr ps \<and>
        user_key pf d (ps ! 0) = Some i \<and> user_key pf d (ps ! 1) = Some j \<and>
        as_text pf (ps ! 2) = Some t \<and>
        rowid = msg_id (new_message now d i j t) \<and> d' = add_message d (new_message now d i j t))"
  unfolding user_key_Some_iff
  by (auto simp: insert_message_def and_then_Inr_iff required_Inr_iff required_text_Inr_iff
        references_Inr_iff Let_def new_message_def add_message_def)

lemma insert_message_success:
  "bind_params 3 [a, b, c] = Inr ps \<Longrightarrow> user_key pf d (ps ! 0) = Some i \<Longrightarrow>
   user_key pf d (ps ! 1) = Some j \<Longrightarrow> as_text pf (ps ! 2) = Some t \<Longrightarrow>
     insert_message pf now a b c d =
       Inr (msg_id (new_message now d i j t), add_message d (new_message now d i j t))"
  using insert_message_Inr_iff by blast

lemma insert_message_bind_failure:
  "bind_params 3 [a, b, c] = Inl e \<Longrightarrow> insert_message pf now a b c d = Inl e"
  by (simp add: insert_message_def)

lemma insert_message_failure:
  assumes "bind_params 3 [a, b, c] = Inr ps"
    and "user_key pf d (ps ! 0) = None \<or> user_key pf d (ps ! 1) = None \<or> as_text pf (ps ! 2) = None"
  shows "\<exists>e. insert_message pf now a b c d = Inl e"
proof (cases "insert_message pf now a b c d")
  case (Inl e)
  then show ?thesis by blast
next
  case (Inr x)
  obtain rowid d' where "x = (rowid, d')" by (cases x)
  with Inr insert_message_Inr_iff [of pf now a b c d rowid d'] assms show ?thesis by auto
qed

lemma find_append_last:
  "find P (xs @ [y]) = (case find P xs of Some x \<Rightarrow> Some x | None \<Rightarrow> if P y then Some y else None)"
  by (induction xs) simp_all

lemma int_column_eq_Real [simp]: "int_column_eq pf i (Real j) \<longleftrightarrow> i = j"
  by (auto simp: int_column_eq_def integer_affinity_def)

lemma new_message_fresh: "x \<in> set (messages d) \<Longrightarrow> msg_id x < msg_id (new_message now d i j t)"
  by (simp add: new_message_def next_rowid_greater)

lemma select_new_message:
  "select_message_by_id pf (add_message d (new_message now d i j t))
     (Real (msg_id (new_message now d i j t))) = Some (new_message now d i j t)"
proof -
  have "find (\<lambda>m. msg_id m = msg_id (new_message now d i j t)) (messages d) = None"
    using new_message_fresh [of _ d now i j t] by (fastforce simp: find_None_iff)
  then show ?thesis
    by (simp add: select_message_by_id_def add_message_def find_append_last)
qed

lemma auth_Inl_iff:
  "auth pf d h = Inl r \<longleftrightarrow>
     (r = Json 401 (ErrorBody ''Unauthorized'') \<and>
      (h = None \<or> h = Some [] \<or> (\<exists>x. h = Some x \<and> select_user_by_id pf d (Text x) = None)))"
  by (auto simp: auth_def split: option.splits)

lemma auth_Inr_iff:
  "auth pf d h = Inr u \<longleftrightarrow>
     (\<exists>x. h = Some x \<and> x \<noteq> [] \<and> select_user_by_id pf d (Text x) = Some u)"
  by (auto simp: auth_def split: option.splits)

lemma with_auth_Inr: "auth pf (db s) h = Inr u \<Longrightarrow> with_auth pf h f s = f u s"
  by (simp add: with_auth_def)

lemma with_auth_Inl: "auth pf (db s) h = Inl r \<Longrightarrow> with_auth pf h f s = (r, [], s)"
  by (simp add: with_auth_def)

lemma auth_user_key:
  assumes "auth pf d h = Inr u"
  shows "u \<in> set (users d)" and "user_key pf d (Real (user_id u)) = Some (user_id u)"
proof -
  from assms obtain x where "select_user_by_id pf d (Text x) = Some u"
    by (auto simp: auth_Inr_iff)
  then show "u \<in> set (users d)" by (simp add: select_user_by_id_Some)
  then show "user_key pf d (Real (user_id u)) = Some (user_id u)"
    by (simp add: user_key_Real)
qed

lemma on_send_message_success:
  assumes "bind_params 3 [senderId, receiverId, content] = Inr ps"
    and "user_key pf (db s) (ps ! 0) = Some i" and "user_key pf (db s) (ps ! 1) = Some j"
    and "as_text pf (ps ! 2) = Some t"
  shows "on_send_message pf now senderId receiverId content s =
           (NoReply,
            [(user_room pf receiverId, ''receive_message'', Some (new_message now (db s) i j t)),
             (user_room pf senderId, ''receive_message'', Some (new_message now (db s) i j t))],
            s\<lparr>db := add_message (db s) (new_message now (db s) i j t)\<rparr>)"
  by (simp add: on_send_message_def insert_message_success [OF assms] select_new_message Let_def)

lemma on_send_message_bind_failure:
  "bind_params 3 [senderId, receiverId, content] = Inl e \<Longrightarrow>
     on_send_message pf now senderId receiverId content s = (Uncaught e, [], process_ended s)"
  by (simp add: on_send_message_def insert_message_bind_failure)

lemma on_send_message_failure:
  assumes "bind_params 3 [senderId, receiverId, content] = Inr ps"
    and "user_key pf (db s) (ps ! 0) = None \<or> user_key pf (db s) (ps ! 1) = None \<or>
      as_text pf (ps ! 2) = None"
  shows "\<exists>e. on_send_message pf now senderId receiverId content s =
           (Uncaught e, [], process_ended s)"
proof -
  from insert_message_failure [OF assms] obtain e where
    "insert_message pf now senderId receiverId content (db s) = Inl e" by blast
  then show ?thesis by (simp add: on_send_message_def)
qed

lemma post_messages_send_success:
  assumes "auth pf (db s) h = Inr u"
    and "bind_params 3 [JNumber (user_id u), receiverId, content] = Inr ps"
    and "user_key pf (db s) (ps ! 1) = Some j" and "as_text pf (ps ! 2) = Some t"
  shows "post_messages_send pf now h receiverId content s =
           (Json 200 (MessageBody (Some (new_message now (db s) (user_id u) j t))), [],
            s\<lparr>db := add_message (db s) (new_message now (db s) (user_id u) j t)\<rparr>)"
proof -
  from bind_params_first_number [OF assms(2)] auth_user_key(2) [OF assms(1)]
  have "user_key pf (db s) (ps ! 0) = Some (user_id u)" by simp
  from insert_message_success [OF assms(2) this assms(3,4)] assms(1) show ?thesis
    by (simp add: post_messages_send_def with_auth_Inr select_new_message)
qed

lemma post_messages_send_bind_failure:
  assumes "auth pf (db s) h = Inr u"
    and "bind_params 3 [JNumber (user_id u), receiverId, content] = Inl e"
  shows "post_messages_send pf now h receiverId content s = (Thrown e, [], s)"
  using assms by (simp add: post_messages_send_def with_auth_Inr insert_message_bind_failure)

lemma post_messages_send_failure:
  assumes "auth pf (db s) h = Inr u"
    and "bind_params 3 [JNumber (user_id u), receiverId, content] = Inr ps"
    and "user_key pf (db s) (ps ! 1) = None \<or> as_text pf (ps ! 2) = None"
  shows "\<exists>e. post_messages_send pf now h receiverId content s = (Thrown e, [], s)"
proof -
  from assms(3) have "user_key pf (db s) (ps ! 0) = None \<or> user_key pf (db s) (ps ! 1) = None \<or>
      as_text pf (ps ! 2) = None" by blast
  from insert_message_failure [OF assms(2) this] obtain e where
    "insert_message pf now (JNumber (user_id u)) receiverId content (db s) = Inl e" by blast
  with assms(1) show ?thesis by (simp add: post_messages_send_def with_auth_Inr)
qed

lemma post_messages_send_unauthorized:
  assumes "auth pf (db s) h = Inl r"
  shows "post_messages_send pf now h receiverId content s =
           (Json 401 (ErrorBody ''Unauthorized''), [], s)"
  using assms by (simp add: post_messages_send_def with_auth_Inl auth_Inl_iff)

lemma as_text_Text: "as_text pf (Text t) = Some t"
  by (simp add: as_text_def text_affinity_def)

section \<open>What a request changes\<close>

lemma with_auth_cases:
  assumes "\<And>u. auth pf (db s) h = Inr u \<Longrightarrow> P (f u s)"
    and "P (Json 401 (ErrorBody ''Unauthorized''), [], s)"
  shows "P (with_auth pf h f s)"
proof (cases "auth pf (db s) h")
  case (Inl r)
  then show ?thesis using assms(2) by (simp add: with_auth_Inl auth_Inl_iff)
next
  case (Inr u)
  then show ?thesis using assms(1) by (simp add: with_auth_Inr)
qed

lemma insert_user_Inr:
  assumes "insert_user pf now e p r n c ph a d = Inr (i, d')"
  shows "\<exists>u ps. d' = d\<lparr>users := users d @ [u], users_seq := i\<rparr> \<and> user_id u = i \<and>
           i = next_rowid (users_seq d) (map user_id (users d)) \<and>
           user_is_approved u = a \<and> user_created_at u = now \<and>
           bind_params 7 [e, p, r, n, c, ph, JNumber a] = Inr ps \<and>
           as_text pf (ps ! 0) = Some (user_email u) \<and>
           as_text pf (ps ! 1) = Some (user_password u) \<and>
           as_text pf (ps ! 2) = Some (user_role u) \<and>
           as_text pf (ps ! 3) = Some (user_name u) \<and>
           user_email u \<notin> set (map user_email (users d))"
  using assms
  by (auto simp: insert_user_def and_then_Inr_iff required_text_Inr_iff Let_def
      split: if_splits)

lemma insert_user_flag_is_last_parameter:
  "bind_params 7 [e, p, r, n, c, ph, JNumber a] = Inr ps \<Longrightarrow>
     integer_affinity pf (ps ! 6) = Integer a"
proof -
  assume b: "bind_params 7 [e, p, r, n, c, ph, JNumber a] = Inr ps"
  then have "bind_args 7 False [] ([e, p, r, n, c, ph] @ [JNumber a]) = Inr ps"
    by (simp add: bind_params_def)
  then have "last ps = Real a" by (rule bind_args_last_number)
  moreover from bind_params_length [OF b] have "length ps = 7" .
  ultimately have "ps ! 6 = Real a" using last_conv_nth [of ps] by force
  then show ?thesis by (simp add: integer_affinity_def)
qed

lemma users_unchanged_post_loads:
  "users (db (snd (snd (post_loads pf now h a b c e f g s)))) = users (db s)"
  unfolding post_loads_def
  by (rule with_auth_cases) (auto split: sum.splits dest: insert_load_frame)

lemma messages_unchanged_post_loads:
  "messages (db (snd (snd (post_loads pf now h a b c e f g s)))) = messages (db s)"
  unfolding post_loads_def
  by (rule with_auth_cases) (auto split: sum.splits dest: insert_load_frame)

lemma users_unchanged_delete_loads:
  "users (db (snd (snd (delete_loads pf h a s)))) = users (db s)"
  unfolding delete_loads_def
  by (rule with_auth_cases) (auto split: sum.splits option.splits dest: delete_load_frame)

lemma messages_unchanged_delete_loads:
  "messages (db (snd (snd (delete_loads pf h a s)))) = messages (db s)"
  unfolding delete_loads_def
  by (rule with_auth_cases) (auto split: sum.splits option.splits dest: delete_load_frame)

lemma users_unchanged_post_trucks:
  "users (db (snd (snd (post_trucks pf now h a b c e s)))) = users (db s)"
  unfolding post_trucks_def
  by (rule with_auth_cases) (auto split: sum.splits dest: insert_truck_frame)

lemma messages_unchanged_post_trucks:
  "messages (db (snd (snd (post_trucks pf now h a b c e s)))) = messages (db s)"
  unfolding post_trucks_def
  by (rule with_auth_cases) (auto split: sum.splits dest: insert_truck_frame)

lemma users_unchanged_post_apply:
  "users (db (snd (snd (post_apply pf now h a s)))) = users (db s)"
  unfolding post_apply_def
  by (rule with_auth_cases) (auto split: sum.splits dest: insert_application_frame)

lemma messages_unchanged_post_apply:
  "messages (db (snd (snd (post_apply pf now h a s)))) = messages (db s)"
  unfolding post_apply_def
  by (rule with_auth_cases) (auto split: sum.splits dest: insert_application_frame)

lemma users_unchanged_post_reviews:
  "users (db (snd (snd (post_reviews pf now h a b c s)))) = users (db s)"
  unfolding post_reviews_def
  by (rule with_auth_cases) (auto split: sum.splits dest: insert_review_frame)

lemma messages_unchanged_post_reviews:
  "messages (db (snd (snd (post_reviews pf now h a b c s)))) = messages (db s)"
  unfolding post_reviews_def
  by (rule with_auth_cases) (auto split: sum.splits dest: insert_review_frame)

lemma login_unchanged: "snd (snd (login pf e p s)) = s"
  by (simp add: login_def split: sum.splits option.splits)

lemma get_messages_unchanged: "snd (snd (get_messages pf h a s)) = s"
  unfolding get_messages_def by (rule with_auth_cases) simp_all

lemma on_join_db: "db (snd (snd (on_join pf k v s))) = db s"
  by (simp add: on_join_def)

lemma messages_unchanged_signup:
  "messages (db (snd (snd (signup pf now e p r n c ph s)))) = messages (db s)"
  by (auto simp: signup_def Let_def split: sum.splits dest!: insert_user_Inr)

lemma messages_unchanged_approve:
  "messages (db (snd (snd (approve pf h a s)))) = messages (db s)"
  unfolding approve_def by (rule with_auth_cases) (simp_all add: update_user_approve_def)

lemma user_ids_approve:
  "map user_id (users (db (snd (snd (approve pf h a s))))) = map user_id (users (db s))"
  unfolding approve_def
  by (rule with_auth_cases) (simp_all add: update_user_approve_def comp_def)

lemma user_ids_signup:
  "set (map user_id (users (db s))) \<subseteq>
   set (map user_id (users (db (snd (snd (signup pf now e p r n c ph s))))))"
  by (auto simp: signup_def Let_def split: sum.splits dest!: insert_user_Inr)

lemma insert_message_effect:
  assumes "insert_message pf now a b c d = Inr (i, d')"
  shows "\<exists>m. d' = add_message d m \<and> msg_id m = i \<and>
           msg_sender_id m \<in> set (map user_id (users d)) \<and>
           msg_receiver_id m \<in> set (map user_id (users d)) \<and>
           (\<forall>x \<in> set (messages d). msg_id x < msg_id m)"
proof -
  from assms obtain ps k j t where k: "user_key pf d (ps ! 0) = Some k"
    and j: "user_key pf d (ps ! 1) = Some j"
    and d': "d' = add_message d (new_message now d k j t)"
    and i: "i = msg_id (new_message now d k j t)"
    by (auto simp: insert_message_Inr_iff)
  from k j have "k \<in> set (map user_id (users d))" "j \<in> set (map user_id (users d))"
    by (auto simp: user_key_Some_iff)
  with d' i show ?thesis
    using new_message_fresh [of _ d now k j t]
    by (intro exI [of _ "new_message now d k j t"]) (simp add: new_message_def)
qed

lemma users_kept_refl: "users_kept d d"
  by (simp add: users_kept_def)

lemma post_messages_send_effect:
  "users_kept (db s) (db (snd (snd (post_messages_send pf now h r c s)))) \<or>
   message_added (db s) (db (snd (snd (post_messages_send pf now h r c s))))"
  unfolding post_messages_send_def
  by (rule with_auth_cases)
    (auto simp: users_kept_refl message_added_def split: sum.splits dest!: insert_message_effect)

lemma on_send_message_effect:
  "users_kept (db s) (db (snd (snd (on_send_message pf now a r c s)))) \<or>
   message_added (db s) (db (snd (snd (on_send_message pf now a r c s))))"
  by (auto simp: on_send_message_def Let_def users_kept_refl message_added_def process_ended_def
      split: sum.splits dest!: insert_message_effect)

lemma handle_effect:
  "users_kept (db s) (db (server_after pf now r s)) \<or>
   message_added (db s) (db (server_after pf now r s))"
proof (cases r)
  case (Signup e p ro n c ph)
  then show ?thesis
    using messages_unchanged_signup [of pf now e p ro n c ph s]
      user_ids_signup [of s pf now e p ro n c ph]
    by (simp add: server_after_def users_kept_def)
next
  case (Login e p)
  then show ?thesis by (simp add: server_after_def login_unchanged users_kept_refl)
next
  case (Approve h a)
  then show ?thesis
    by (simp add: server_after_def users_kept_def messages_unchanged_approve user_ids_approve
          del: set_map)
next
  case (PostLoads h a b c e f g)
  then show ?thesis
    by (simp add: server_after_def users_kept_def messages_unchanged_post_loads
          users_unchanged_post_loads)
next
  case (DeleteLoads h a)
  then show ?thesis
    by (simp add: server_after_def users_kept_def messages_unchanged_delete_loads
          users_unchanged_delete_loads)
next
  case (PostTrucks h a b c e)
  then show ?thesis
    by (simp add: server_after_def users_kept_def messages_unchanged_post_trucks
          users_unchanged_post_trucks)
next
  case (PostApply h a)
  then show ?thesis
    by (simp add: server_after_def users_kept_def messages_unchanged_post_apply
          users_unchanged_post_apply)
next
  case (PostReviews h a b c)
  then show ?thesis
    by (simp add: server_after_def users_kept_def messages_unchanged_post_reviews
          users_unchanged_post_reviews)
next
  case (PostMessagesSend h a b)
  then show ?thesis using post_messages_send_effect [of s pf now h a b]
    by (simp add: server_after_def)
next
  case (GetMessages h a)
  then show ?thesis by (simp add: server_after_def get_messages_unchanged users_kept_refl)
next
  case (Join k v)
  then show ?thesis by (simp add: server_after_def on_join_db users_kept_refl)
next
  case (SendMessage a b c)
  then show ?thesis using on_send_message_effect [of s pf now a b c]
    by (simp add: server_after_def)
qed

lemma keys_increase_step:
  assumes "keys_increase d" "users_kept d d' \<or> message_added d d'"
  shows "keys_increase d'"
  using assms
  by (auto simp: keys_increase_def users_kept_def message_added_def add_message_def
        sorted_wrt_append)


lemma reachable_keys_increase: "reachable pf s \<Longrightarrow> keys_increase (db s)"
proof (induction rule: reachable.induct)
  case reachable_init
  show ?case by (simp add: keys_increase_def init_server_def init_db_def)
next
  case (reachable_step s now r)
  then show ?case using keys_increase_step handle_effect by blast
qed


section \<open>Sending a message\<close>

text \<open>
  C1, as the specification words it, does not hold. The store refuses a missing content
  but not an empty one: Ann (key 1) sends Bob (key 2) the empty text, over the route and
  over the socket, and both times the message is stored. And where a send does fail it is
  not by a validation: a send to a receiver that does not exist ends in SQLite's
  \<open>FOREIGN KEY constraint failed\<close>, thrown out of the handler on the route and out of
  the listener on the socket, and a send by a caller that does not exist is answered 401
  by \<open>auth\<close>.
\<close>

theorem send_empty_content_counterexample:
  "post_messages_send sample_platform 12 (Some ''1'') (JNumber 2) (JString '''') ann_and_bob =
     (Json 200
        (MessageBody
           (Some \<lparr>msg_id = 1, msg_sender_id = 1, msg_receiver_id = 2, msg_content = '''',
                  msg_created_at = 12\<rparr>)),
      [],
      ann_and_bob\<lparr>db := (db ann_and_bob)
        \<lparr>messages := [\<lparr>msg_id = 1, msg_sender_id = 1, msg_receiver_id = 2, msg_content = '''',
                        msg_created_at = 12\<rparr>],
         messages_seq := 1\<rparr>\<rparr>)
   \<and> messages (db (server_after sample_platform 12
         (SendMessage (JNumber 1) (JNumber 2) (JString '''')) ann_and_bob)) =
       [\<lparr>msg_id = 1, msg_sender_id = 1, msg_receiver_id = 2, msg_content = '''',
         msg_created_at = 12\<rparr>]
   \<and> post_messages_send sample_platform 12 (Some ''1'') (JNumber 7) (JString ''Hello'') ann_and_bob =
       (Thrown ForeignKeyFailed, [], ann_and_bob)
   \<and> on_send_message sample_platform 12 (JNumber 1) (JNumber 7) (JString ''Hello'') ann_and_bob =
       (Uncaught ForeignKeyFailed, [], process_ended ann_and_bob)
   \<and> post_messages_send sample_platform 12 (Some ''7'') (JNumber 2) (JString ''Hello'') ann_and_bob =
       (Json 401 (ErrorBody ''Unauthorized''), [], ann_and_bob)"
  by code_simp

text \<open>
  C1, amended. A send fails and stores nothing exactly when its arguments do not bind to
  the three parameters of the statement, or the sender or the receiver parameter resolves
  to no user, or the content parameter is NULL. The failure is what the statement throws:
  on the socket nothing catches it and the process ends, on the route Express answers;
  and the route answers 401 before any statement when the caller's header resolves to no
  user. Otherwise, and so also for the empty text, the send appends one row whose key is
  larger than every key in the table and whose timestamp is the current time, and hands
  that row back: as the payload of the socket's events, as the body of the route's answer.
  (The last three lines spell the parameters out for a send of two numbers and a string.)
\<close>

theorem send_outcome:
  "(\<forall>e. bind_params 3 [senderId, receiverId, content] = Inl e \<longrightarrow>
      on_send_message pf now senderId receiverId content s = (Uncaught e, [], process_ended s))
   \<and> (\<forall>ps. bind_params 3 [senderId, receiverId, content] = Inr ps \<longrightarrow>
        (user_key pf (db s) (ps ! 0) = None \<or> user_key pf (db s) (ps ! 1) = None \<or>
         as_text pf (ps ! 2) = None
           \<longrightarrow> (\<exists>e. on_send_message pf now senderId receiverId content s =
                     (Uncaught e, [], process_ended s)))
        \<and> (\<forall>i j t. user_key pf (db s) (ps ! 0) = Some i \<and> user_key pf (db s) (ps ! 1) = Some j \<and>
              as_text pf (ps ! 2) = Some t
           \<longrightarrow> on_send_message pf now senderId receiverId content s =
                 (NoReply,
                  [(user_room pf receiverId, ''receive_message'', Some (new_message now (db s) i j t)),
                   (user_room pf senderId, ''receive_message'', Some (new_message now (db s) i j t))],
                  s\<lparr>db := add_message (db s) (new_message now (db s) i j t)\<rparr>)))
   \<and> (\<forall>r. auth pf (db s) authorization = Inl r \<longrightarrow>
        post_messages_send pf now authorization receiverId content s =
          (Json 401 (ErrorBody ''Unauthorized''), [], s))
   \<and> (\<forall>u. auth pf (db s) authorization = Inr u \<longrightarrow>
        (\<forall>e. bind_params 3 [JNumber (user_id u), receiverId, content] = Inl e \<longrightarrow>
           post_messages_send pf now authorization receiverId content s = (Thrown e, [], s))
        \<and> (\<forall>ps. bind_params 3 [JNumber (user_id u), receiverId, content] = Inr ps \<longrightarrow>
             (user_key pf (db s) (ps ! 1) = None \<or> as_text pf (ps ! 2) = None
                \<longrightarrow> (\<exists>e. post_messages_send pf now authorization receiverId content s =
                          (Thrown e, [], s)))
             \<and> (\<forall>j t. user_key pf (db s) (ps ! 1) = Some j \<and> as_text pf (ps ! 2) = Some t
                \<longrightarrow> post_messages_send pf now authorization receiverId content s =
                      (Json 200 (MessageBody (Some (new_message now (db s) (user_id u) j t))), [],
                       s\<lparr>db := add_message (db s) (new_message now (db s) (user_id u) j t)\<rparr>))))
   \<and> (\<forall>i j t. msg_created_at (new_message now (db s) i j t) = now
        \<and> (\<forall>x \<in> set (messages (db s)). msg_id x < msg_id (new_message now (db s) i j t))
        \<and> messages (add_message (db s) (new_message now (db s) i j t)) =
            messages (db s) @ [new_message now (db s) i j t])
   \<and> bind_params 3 [JNumber a, JNumber b, JString text] = Inr [Real a, Real b, Text text]
   \<and> user_key pf (db s) (Real a) = (if a \<in> set (map user_id (users (db s))) then Some a else None)
   \<and> as_text pf (Text text) = Some text"
proof (intro conjI allI impI ballI)
  fix e
  assume "bind_params 3 [senderId, receiverId, content] = Inl e"
  then show "on_send_message pf now senderId receiverId content s =
      (Uncaught e, [], process_ended s)"
    by (rule on_send_message_bind_failure)
next
  fix ps
  assume "bind_params 3 [senderId, receiverId, content] = Inr ps"
    and "user_key pf (db s) (ps ! 0) = None \<or> user_key pf (db s) (ps ! 1) = None \<or>
         as_text pf (ps ! 2) = None"
  then show "\<exists>e. on_send_message pf now senderId receiverId content s =
      (Uncaught e, [], process_ended s)"
    by (rule on_send_message_failure)
next
  fix ps i j t
  assume "bind_params 3 [senderId, receiverId, content] = Inr ps"
    and "user_key pf (db s) (ps ! 0) = Some i \<and> user_key pf (db s) (ps ! 1) = Some j \<and>
              as_text pf (ps ! 2) = Some t"
  then show "on_send_message pf now senderId receiverId content s =
                 (NoReply,
                  [(user_room pf receiverId, ''receive_message'', Some (new_message now (db s) i j t)),
                   (user_room pf senderId, ''receive_message'', Some (new_message now (db s) i j t))],
                  s\<lparr>db := add_message (db s) (new_message now (db s) i j t)\<rparr>)"
    by (simp add: on_send_message_success)
next
  fix r
  assume "auth pf (db s) authorization = Inl r"
  then show "post_messages_send pf now authorization receiverId content s =
          (Json 401 (ErrorBody ''Unauthorized''), [], s)"
    by (rule post_messages_send_unauthorized)
next
  fix u e
  assume "auth pf (db s) authorization = Inr u"
    and "bind_params 3 [JNumber (user_id u), receiverId, content] = Inl e"
  then show "post_messages_send pf now authorization receiverId content s = (Thrown e, [], s)"
    by (rule post_messages_send_bind_failure)
next
  fix u ps
  assume "auth pf (db s) authorization = Inr u"
    and "bind_params 3 [JNumber (user_id u), receiverId, content] = Inr ps"
    and "user_key pf (db s) (ps ! 1) = None \<or> as_text pf (ps ! 2) = None"
  then show "\<exists>e. post_messages_send pf now authorization receiverId content s =
      (Thrown e, [], s)"
    by (rule post_messages_send_failure)
next
  fix u ps j t
  assume "auth pf (db s) authorization = Inr u"
    and "bind_params 3 [JNumber (user_id u), receiverId, content] = Inr ps"
    and "user_key pf (db s) (ps ! 1) = Some j \<and> as_text pf (ps ! 2) = Some t"
  then show "post_messages_send pf now authorization receiverId content s =
                      (Json 200 (MessageBody (Some (new_message now (db s) (user_id u) j t))), [],
                       s\<lparr>db := add_message (db s) (new_message now (db s) (user_id u) j t)\<rparr>)"
    by (simp add: post_messages_send_success)
next
  fix i j t
  show "msg_created_at (new_message now (db s) i j t) = now"
    by (simp add: new_message_def)
next
  fix i j t x
  assume "x \<in> set (messages (db s))"
  then show "msg_id x < msg_id (new_message now (db s) i j t)"
    by (rule new_message_fresh)
next
  fix i j t
  show "messages (add_message (db s) (new_message now (db s) i j t)) =
            messages (db s) @ [new_message now (db s) i j t]"
    by (simp add: add_message_def)
next
  show "bind_params 3 [JNumber a, JNumber b, JString text] = Inr [Real a, Real b, Text text]"
    by (rule bind_params_plain)
next
  show "user_key pf (db s) (Real a) =
      (if a \<in> set (map user_id (users (db s))) then Some a else None)"
    by (rule user_key_Real)
next
  show "as_text pf (Text text) = Some text" by (rule as_text_Text)
qed

theorem send_outcome_witness:
  "post_messages_send sample_platform 12 (Some ''1'') (JString ''2'') (JString '''') ann_and_bob =
     (Json 200 (MessageBody (Some (new_message 12 (db ann_and_bob) 1 2 ''''))), [],
      ann_and_bob\<lparr>db := add_message (db ann_and_bob) (new_message 12 (db ann_and_bob) 1 2 '''')\<rparr>)
   \<and> on_send_message sample_platform 12 (JNumber 1) (JString ''2'') (JString '''') ann_and_bob =
     (NoReply,
      [(user_room sample_platform (JString ''2''), ''receive_message'',
        Some (new_message 12 (db ann_and_bob) 1 2 '''')),
       (user_room sample_platform (JNumber 1), ''receive_message'',
        Some (new_message 12 (db ann_and_bob) 1 2 ''''))],
      ann_and_bob\<lparr>db := add_message (db ann_and_bob) (new_message 12 (db ann_and_bob) 1 2 '''')\<rparr>)
   \<and> (\<exists>e. on_send_message sample_platform 12 (JNumber 1) (JNumber 7) (JString ''Hello'') ann_and_bob =
          (Uncaught e, [], process_ended ann_and_bob))
   \<and> on_send_message sample_platform 12 (JNumber 1) (JBool True) (JString ''Hello'') ann_and_bob =
          (Uncaught BindTypeError, [], process_ended ann_and_bob)
   \<and> (\<exists>e. post_messages_send sample_platform 12 (Some ''1'') (JNumber 2) JUndefined ann_and_bob =
          (Thrown e, [], ann_and_bob))
   \<and> post_messages_send sample_platform 12 (Some ''1'') (JNumber 2) JObject ann_and_bob =
          (Thrown TooFewParameters, [], ann_and_bob)
   \<and> post_messages_send sample_platform 12 (Some ''7'') (JNumber 2) (JString ''Hello'') ann_and_bob =
          (Json 401 (ErrorBody ''Unauthorized''), [], ann_and_bob)
   \<and> msg_id (new_message 13 (db ann_wrote_bob) 2 1 ''Hi back'') = 2"
proof -
  have b1: "bind_params 3 [JNumber 1, JString ''2'', JString ''''] = Inr [Real 1, Text ''2'', Text '''']"
    by code_simp
  have b2: "bind_params 3 [JNumber 1, JNumber 7, JString ''Hello''] = Inr [Real 1, Real 7, Text ''Hello'']"
    by code_simp
  have b3: "bind_params 3 [JNumber 1, JBool True, JString ''Hello''] = Inl BindTypeError"
    by code_simp
  have b4: "bind_params 3 [JNumber 1, JNumber 2, JUndefined] = Inr [Real 1, Real 2, Null]"
    by code_simp
  have b5: "bind_params 3 [JNumber 1, JNumber 2, JObject] = Inl TooFewParameters"
    by code_simp
  have k1: "user_key sample_platform (db ann_and_bob) (Real 1) = Some 1" by code_simp
  have k2: "user_key sample_platform (db ann_and_bob) (Text ''2'') = Some 2" by code_simp
  have k7: "user_key sample_platform (db ann_and_bob) (Real 7) = None" by code_simp
  have t: "as_text sample_platform (Text '''') = Some ''''" by code_simp
  have tu: "as_text sample_platform Null = None" by code_simp
  have a: "auth sample_platform (db ann_and_bob) (Some ''1'') = Inr (hd (users (db ann_and_bob)))"
    by code_simp
  have a7: "auth sample_platform (db ann_and_bob) (Some ''7'') =
      Inl (Json 401 (ErrorBody ''Unauthorized''))" by code_simp
  have i: "user_id (hd (users (db ann_and_bob))) = 1" by code_simp
  have n: "msg_id (new_message 13 (db ann_wrote_bob) 2 1 ''Hi back'') = 2" by code_simp
  note ok = send_outcome [of "JNumber 1" "JString ''2''" "JString ''''" sample_platform 12
      ann_and_bob "Some ''1''"]
  note bad = send_outcome [of "JNumber 1" "JNumber 7" "JString ''Hello''" sample_platform 12
      ann_and_bob "Some ''1''"]
  note wrong_type = send_outcome [of "JNumber 1" "JBool True" "JString ''Hello''" sample_platform 12
      ann_and_bob "Some ''1''"]
  note missing = send_outcome [of "JNumber 1" "JNumber 2" "JUndefined" sample_platform 12
      ann_and_bob "Some ''1''"]
  note obj = send_outcome [of "JNumber 1" "JNumber 2" "JObject" sample_platform 12
      ann_and_bob "Some ''1''"]
  note stranger = send_outcome [of "JNumber 1" "JNumber 2" "JString ''Hello''" sample_platform 12
      ann_and_bob "Some ''7''"]
  from ok a i b1 k2 t
  have 1: "post_messages_send sample_platform 12 (Some ''1'') (JString ''2'') (JString '''') ann_and_bob =
     (Json 200 (MessageBody (Some (new_message 12 (db ann_and_bob) 1 2 ''''))), [],
      ann_and_bob\<lparr>db := add_message (db ann_and_bob) (new_message 12 (db ann_and_bob) 1 2 '''')\<rparr>)"
    by simp
  from ok b1 k1 k2 t
  have 2: "on_send_message sample_platform 12 (JNumber 1) (JString ''2'') (JString '''') ann_and_bob =
     (NoReply,
      [(user_room sample_platform (JString ''2''), ''receive_message'',
        Some (new_message 12 (db ann_and_bob) 1 2 '''')),
       (user_room sample_platform (JNumber 1), ''receive_message'',
        Some (new_message 12 (db ann_and_bob) 1 2 ''''))],
      ann_and_bob\<lparr>db := add_message (db ann_and_bob) (new_message 12 (db ann_and_bob) 1 2 '''')\<rparr>)"
    by simp
  from bad b2 k7
  have 3: "\<exists>e. on_send_message sample_platform 12 (JNumber 1) (JNumber 7) (JString ''Hello'') ann_and_bob =
          (Uncaught e, [], process_ended ann_and_bob)" by simp
  from wrong_type b3
  have 4: "on_send_message sample_platform 12 (JNumber 1) (JBool True) (JString ''Hello'') ann_and_bob =
          (Uncaught BindTypeError, [], process_ended ann_and_bob)" by simp
  from missing a i b4 tu
  have 5: "\<exists>e. post_messages_send sample_platform 12 (Some ''1'') (JNumber 2) JUndefined ann_and_bob =
          (Thrown e, [], ann_and_bob)" by simp
  from obj a i b5
  have 6: "post_messages_send sample_platform 12 (Some ''1'') (JNumber 2) JObject ann_and_bob =
          (Thrown TooFewParameters, [], ann_and_bob)" by simp
  from stranger a7
  have 7: "post_messages_send sample_platform 12 (Some ''7'') (JNumber 2) (JString ''Hello'') ann_and_bob =
          (Json 401 (ErrorBody ''Unauthorized''), [], ann_and_bob)" by simp
  from 1 2 3 4 5 6 7 n show ?thesis by (intro conjI)
qed

section \<open>Conversation history\<close>

lemma insort_key_two_keys:
  fixes f :: "'a \<Rightarrow> 'k::linorder" and g :: "'a \<Rightarrow> 'l::order"
  assumes "sorted_wrt (\<lambda>x y. f x < f y \<or> (f x = f y \<and> g x < g y)) ys"
    and "\<forall>y \<in> set ys. g x < g y"
  shows "sorted_wrt (\<lambda>x y. f x < f y \<or> (f x = f y \<and> g x < g y)) (insort_key f x ys)"
  using assms
proof (induction ys)
  case Nil
  show ?case by simp
next
  case (Cons y ys)
  show ?case
  proof (cases "f x \<le> f y")
    case True
    have "f x < f z \<or> (f x = f z \<and> g x < g z)" if "z \<in> set (y # ys)" for z
    proof -
      from Cons.prems(1) that have "f y \<le> f z" by auto
      with True have "f x \<le> f z" by simp
      moreover from Cons.prems(2) that have "g x < g z" by auto
      ultimately show ?thesis by auto
    qed
    with True Cons.prems(1) show ?thesis by simp
  next
    case False
    then have "f y < f x" by simp
    moreover from Cons have "sorted_wrt (\<lambda>x y. f x < f y \<or> (f x = f y \<and> g x < g y)) (insort_key f x ys)"
      by simp
    ultimately show ?thesis using False Cons.prems(1) by (auto simp: set_insort_key)
  qed
qed

lemma sort_key_two_keys:
  fixes f :: "'a \<Rightarrow> 'k::linorder" and g :: "'a \<Rightarrow> 'l::order"
  assumes "sorted_wrt (\<lambda>x y. g x < g y) xs"
  shows "sorted_wrt (\<lambda>x y. f x < f y \<or> (f x = f y \<and> g x < g y)) (sort_key f xs)"
  using assms
proof (induction xs)
  case Nil
  show ?case by simp
next
  case (Cons x xs)
  then have "sorted_wrt (\<lambda>x y. f x < f y \<or> (f x = f y \<and> g x < g y)) (sort_key f xs)"
    and "\<forall>y \<in> set (sort_key f xs). g x < g y"
    by simp_all
  then show ?case by (simp add: insort_key_two_keys)
qed



lemma messages_by_key_sorted: "keys_increase d \<Longrightarrow> messages_by_key d = messages d"
proof -
  assume "keys_increase d"
  then have "sorted (map msg_id (messages d))"
    by (simp add: keys_increase_def strict_sorted_iff)
  then show ?thesis by (simp add: messages_by_key_def sort_key_id_if_sorted)
qed

lemma int_column_eq_Text:
  "integer_affinity pf (Text x) = Integer b \<Longrightarrow> int_column_eq pf i (Text x) \<longleftrightarrow> i = b"
  by (auto simp: int_column_eq_def)

lemma history_filter:
  assumes "integer_affinity pf (Text otherId) = Integer b"
  shows "history pf d a otherId =
           sort_key msg_created_at (filter (in_conversation a b) (messages_by_key d))"
proof -
  have "(\<lambda>m. (int_column_eq pf (msg_sender_id m) (Real a) \<and>
              int_column_eq pf (msg_receiver_id m) (Text otherId))
            \<or> (int_column_eq pf (msg_sender_id m) (Text otherId) \<and>
               int_column_eq pf (msg_receiver_id m) (Real a)))
        = in_conversation a b"
    by (auto simp: fun_eq_iff in_conversation_def int_column_eq_Text [OF assms] doubleton_eq_iff)
  then show ?thesis by (simp add: history_def select_conversation_def)
qed

lemma get_messages_history:
  "auth pf (db s) h = Inr u \<Longrightarrow>
     get_messages pf h otherId s =
       (Json 200 (MessagesBody (history pf (db s) (user_id u) otherId)), [], s)"
  by (simp add: get_messages_def with_auth_Inr history_def)

lemma history_mset:
  assumes "integer_affinity pf (Text otherId) = Integer b"
  shows "mset (history pf d a otherId) = mset (filter (in_conversation a b) (messages d))"
  by (simp add: history_filter [OF assms] messages_by_key_def)

lemma history_ordered:
  assumes "keys_increase d" "integer_affinity pf (Text otherId) = Integer b"
  shows "sorted_wrt before (history pf d a otherId)"
proof -
  from assms(1) have "sorted_wrt (\<lambda>x y. msg_id x < msg_id y) (messages d)"
    by (simp add: keys_increase_def sorted_wrt_map)
  then have "sorted_wrt (\<lambda>x y. msg_id x < msg_id y) (filter (in_conversation a b) (messages d))"
    by (rule sorted_wrt_filter)
  then have "sorted_wrt (\<lambda>x y. msg_created_at x < msg_created_at y \<or>
       (msg_created_at x = msg_created_at y \<and> msg_id x < msg_id y))
     (sort_key msg_created_at (filter (in_conversation a b) (messages d)))"
    by (rule sort_key_two_keys)
  then show ?thesis
    by (simp add: history_filter [OF assms(2)] messages_by_key_sorted [OF assms(1)] before_def [abs_def])
qed

lemma reachable_chatting: "reachable sample_platform chatting"
  unfolding chatting_def ann_wrote_bob_def ann_and_bob_def by (intro reachable.intros)

text \<open>
  C3. In a reachable server the history route answers an authenticated caller with
  status 200 and exactly the stored messages between the caller and the user the path
  names, each as often as it is stored, ordered by creation time and, within one second,
  by key (which grows with insertion). When there is no such message the answer is the
  empty list, not an error.
\<close>

theorem history_exact_and_ordered:
  assumes "reachable pf s" and "auth pf (db s) authorization = Inr u"
    and "integer_affinity pf (Text otherId) = Integer b"
  shows "get_messages pf authorization otherId s =
           (Json 200 (MessagesBody (history pf (db s) (user_id u) otherId)), [], s)
       \<and> mset (history pf (db s) (user_id u) otherId) =
           mset (filter (in_conversation (user_id u) b) (messages (db s)))
       \<and> sorted_wrt before (history pf (db s) (user_id u) otherId)
       \<and> ((\<forall>m \<in> set (messages (db s)). \<not> in_conversation (user_id u) b m)
            \<longrightarrow> history pf (db s) (user_id u) otherId = [])"
proof (intro conjI impI)
  show "get_messages pf authorization otherId s =
           (Json 200 (MessagesBody (history pf (db s) (user_id u) otherId)), [], s)"
    using assms(2) by (rule get_messages_history)
  show m: "mset (history pf (db s) (user_id u) otherId) =
           mset (filter (in_conversation (user_id u) b) (messages (db s)))"
    using assms(3) by (rule history_mset)
  show "sorted_wrt before (history pf (db s) (user_id u) otherId)"
    using reachable_keys_increase [OF assms(1)] assms(3) by (rule history_ordered)
  assume "\<forall>m \<in> set (messages (db s)). \<not> in_conversation (user_id u) b m"
  then have "filter (in_conversation (user_id u) b) (messages (db s)) = []"
    by (simp add: filter_empty_conv)
  with m show "history pf (db s) (user_id u) otherId = []" by simp
qed

theorem history_exact_and_ordered_witness:
  "reachable sample_platform chatting
   \<and> get_messages sample_platform (Some ''1'') ''2'' chatting =
       (Json 200 (MessagesBody (history sample_platform (db chatting) 1 ''2'')), [], chatting)
   \<and> history sample_platform (db chatting) 1 ''2'' =
       [\<lparr>msg_id = 1, msg_sender_id = 1, msg_receiver_id = 2, msg_content = ''Hello'',
         msg_created_at = 12\<rparr>,
        \<lparr>msg_id = 2, msg_sender_id = 2, msg_receiver_id = 1, msg_content = ''Hi back'',
         msg_created_at = 12\<rparr>]
   \<and> mset (history sample_platform (db chatting) 1 ''2'') =
       mset (filter (in_conversation 1 2) (messages (db chatting)))
   \<and> sorted_wrt before (history sample_platform (db chatting) 1 ''2'')
   \<and> history sample_platform (db chatting) 1 ''1'' = []"
proof -
  have a: "auth sample_platform (db chatting) (Some ''1'') = Inr (hd (users (db chatting)))"
    by code_simp
  have i: "user_id (hd (users (db chatting))) = 1" by code_simp
  have p2: "integer_affinity sample_platform (Text ''2'') = Integer 2" by code_simp
  have p1: "integer_affinity sample_platform (Text ''1'') = Integer 1" by code_simp
  have none: "\<forall>m \<in> set (messages (db chatting)). \<not> in_conversation 1 1 m" by code_simp
  have v: "history sample_platform (db chatting) 1 ''2'' =
       [\<lparr>msg_id = 1, msg_sender_id = 1, msg_receiver_id = 2, msg_content = ''Hello'',
         msg_created_at = 12\<rparr>,
        \<lparr>msg_id = 2, msg_sender_id = 2, msg_receiver_id = 1, msg_content = ''Hi back'',
         msg_created_at = 12\<rparr>]" by code_simp
  from history_exact_and_ordered [OF reachable_chatting a p2] i
  have "get_messages sample_platform (Some ''1'') ''2'' chatting =
       (Json 200 (MessagesBody (history sample_platform (db chatting) 1 ''2'')), [], chatting)
   \<and> mset (history sample_platform (db chatting) 1 ''2'') =
       mset (filter (in_conversation 1 2) (messages (db chatting)))
   \<and> sorted_wrt before (history sample_platform (db chatting) 1 ''2'')" by simp
  moreover from history_exact_and_ordered [OF reachable_chatting a p1] i none
  have "history sample_platform (db chatting) 1 ''1'' = []" by simp
  ultimately show ?thesis using reachable_chatting v by simp
qed

text \<open>
  C5. The query is symmetric in the two users, in every database; and so are the
  answers of the route when each of two users asks for the conversation with the other.
\<close>

theorem history_symmetric:
  "select_conversation pf d a b b a = select_conversation pf d b a a b
   \<and> (\<forall>ua ub. auth pf (db s) ha = Inr ua \<and> auth pf (db s) hb = Inr ub \<and>
        integer_affinity pf (Text pa) = Integer (user_id ua) \<and>
        integer_affinity pf (Text pb) = Integer (user_id ub)
        \<longrightarrow> get_messages pf ha pb s = get_messages pf hb pa s)"
proof (intro conjI allI impI)
  show "select_conversation pf d a b b a = select_conversation pf d b a a b"
    unfolding select_conversation_def
    by (rule arg_cong [where f = "\<lambda>P. sort_key msg_created_at (filter P (messages_by_key d))"])
      (auto simp: fun_eq_iff)
next
  fix ua ub
  assume h: "auth pf (db s) ha = Inr ua \<and> auth pf (db s) hb = Inr ub \<and>
        integer_affinity pf (Text pa) = Integer (user_id ua) \<and>
        integer_affinity pf (Text pb) = Integer (user_id ub)"
  then have "history pf (db s) (user_id ua) pb =
      sort_key msg_created_at (filter (in_conversation (user_id ua) (user_id ub)) (messages_by_key (db s)))"
    and "history pf (db s) (user_id ub) pa =
      sort_key msg_created_at (filter (in_conversation (user_id ub) (user_id ua)) (messages_by_key (db s)))"
    by (simp_all add: history_filter)
  moreover have "in_conversation (user_id ua) (user_id ub) = in_conversation (user_id ub) (user_id ua)"
    by (auto simp: fun_eq_iff in_conversation_def)
  ultimately have "history pf (db s) (user_id ua) pb = history pf (db s) (user_id ub) pa" by simp
  with h show "get_messages pf ha pb s = get_messages pf hb pa s"
    by (simp add: get_messages_history)
qed

theorem history_symmetric_witness:
  "get_messages sample_platform (Some ''1'') ''2'' chatting =
     get_messages sample_platform (Some ''2'') ''1'' chatting
   \<and> history sample_platform (db chatting) 2 ''1'' =
       [\<lparr>msg_id = 1, msg_sender_id = 1, msg_receiver_id = 2, msg_content = ''Hello'',
         msg_created_at = 12\<rparr>,
        \<lparr>msg_id = 2, msg_sender_id = 2, msg_receiver_id = 1, msg_content = ''Hi back'',
         msg_created_at = 12\<rparr>]"
proof -
  have a: "auth sample_platform (db chatting) (Some ''1'') = Inr (hd (users (db chatting)))"
    by code_simp
  have b: "auth sample_platform (db chatting) (Some ''2'') = Inr (hd (tl (users (db chatting))))"
    by code_simp
  have p1: "integer_affinity sample_platform (Text ''1'') =
      Integer (user_id (hd (users (db chatting))))" by code_simp
  have p2: "integer_affinity sample_platform (Text ''2'') =
      Integer (user_id (hd (tl (users (db chatting)))))" by code_simp
  have v: "history sample_platform (db chatting) 2 ''1'' =
       [\<lparr>msg_id = 1, msg_sender_id = 1, msg_receiver_id = 2, msg_content = ''Hello'',
         msg_created_at = 12\<rparr>,
        \<lparr>msg_id = 2, msg_sender_id = 2, msg_receiver_id = 1, msg_content = ''Hi back'',
         msg_created_at = 12\<rparr>]" by code_simp
  from history_symmetric [where pf = sample_platform and s = chatting and ha = "Some ''1''"
      and hb = "Some ''2''" and pa = "''1''" and pb = "''2''"] a b p1 p2
  have "get_messages sample_platform (Some ''1'') ''2'' chatting =
      get_messages sample_platform (Some ''2'') ''1'' chatting"
    by blast
  with v show ?thesis by simp
qed









section \<open>Authentication and referential integrity\<close>

text \<open>
  C8. When the \<open>authorization\<close> header is missing, empty, or is a text for which the
  query of \<open>auth\<close> finds no user, every route behind \<open>auth\<close> answers 401 and leaves the
  server as it was, whatever its handler is: the handler is not run. The two message
  routes are instances.
\<close>

theorem unauthenticated_rejected:
  assumes "authorization = None \<or> authorization = Some [] \<or>
     (\<exists>userId. authorization = Some userId \<and> select_user_by_id pf (db s) (Text userId) = None)"
  shows "with_auth pf authorization handler s = (Json 401 (ErrorBody ''Unauthorized''), [], s)
       \<and> post_messages_send pf now authorization receiverId content s =
           (Json 401 (ErrorBody ''Unauthorized''), [], s)
       \<and> get_messages pf authorization otherId s =
           (Json 401 (ErrorBody ''Unauthorized''), [], s)"
proof -
  from assms have "auth pf (db s) authorization = Inl (Json 401 (ErrorBody ''Unauthorized''))"
    by (simp add: auth_Inl_iff)
  then have "with_auth pf authorization h s = (Json 401 (ErrorBody ''Unauthorized''), [], s)" for h
    by (rule with_auth_Inl)
  then show ?thesis by (simp add: post_messages_send_def get_messages_def)
qed

theorem unauthenticated_rejected_witness:
  "post_messages_send sample_platform 12 None (JNumber 2) (JString ''Hello'') ann_and_bob =
     (Json 401 (ErrorBody ''Unauthorized''), [], ann_and_bob)
   \<and> post_messages_send sample_platform 12 (Some '''') (JNumber 2) (JString ''Hello'') ann_and_bob =
     (Json 401 (ErrorBody ''Unauthorized''), [], ann_and_bob)
   \<and> post_messages_send sample_platform 12 (Some ''7'') (JNumber 2) (JString ''Hello'') ann_and_bob =
     (Json 401 (ErrorBody ''Unauthorized''), [], ann_and_bob)
   \<and> get_messages sample_platform (Some ''ann'') ''2'' ann_and_bob =
     (Json 401 (ErrorBody ''Unauthorized''), [], ann_and_bob)"
proof -
  have 7: "select_user_by_id sample_platform (db ann_and_bob) (Text ''7'') = None" by code_simp
  have ann: "select_user_by_id sample_platform (db ann_and_bob) (Text ''ann'') = None"
    by code_simp
  show ?thesis
    using unauthenticated_rejected [of None sample_platform ann_and_bob]
      unauthenticated_rejected [of "Some ''''" sample_platform ann_and_bob]
      unauthenticated_rejected [of "Some ''7''" sample_platform ann_and_bob] 7
      unauthenticated_rejected [of "Some ''ann''" sample_platform ann_and_bob] ann
    by simp
qed





section \<open>Users: sign-up, login and approval\<close>

lemma select_new_user:
  assumes "user_id u = next_rowid sq (map user_id (users d))"
  shows "select_user_by_id pf (d\<lparr>users := users d @ [u], users_seq := k\<rparr>) (Real (user_id u))
     = Some u"
proof -
  have "find (\<lambda>x. user_id x = user_id u) (users d) = None"
    using next_rowid_greater [of _ "map user_id (users d)" sq] assms
    by (fastforce simp: find_None_iff)
  then show ?thesis by (simp add: select_user_by_id_def find_append_last)
qed

lemma signup_cases:
  "(\<exists>e. signup pf now email password role name company phone s =
      (Json 400 (ErrorBody e), [], s))
   \<or> (\<exists>u ps. signup pf now email password role name company phone s =
            (Json 200 (UserBody (Some u)), [],
             s\<lparr>db := (db s)\<lparr>users := users (db s) @ [u], users_seq := user_id u\<rparr>\<rparr>)
          \<and> user_is_approved u = (if role = JString ''admin'' then 1 else 0)
          \<and> bind_params 7 [email, password, role, name, company, phone,
               JNumber (if role = JString ''admin'' then 1 else 0)] = Inr ps
          \<and> as_text pf (ps ! 1) = Some (user_password u)
          \<and> (\<forall>x \<in> set (users (db s)). user_id x < user_id u))"
proof (cases "insert_user pf now email password role name company phone
    (if role = JString ''admin'' then 1 else 0) (db s)")
  case (Inl e)
  then show ?thesis by (simp add: signup_def)
next
  case (Inr x)
  obtain i d' where x: "x = (i, d')" by (cases x)
  from insert_user_Inr [OF Inr [unfolded x]] obtain u ps where
    d': "d' = (db s)\<lparr>users := users (db s) @ [u], users_seq := i\<rparr>" and i: "user_id u = i"
    and n: "i = next_rowid (users_seq (db s)) (map user_id (users (db s)))"
    and a: "user_is_approved u = (if role = JString ''admin'' then 1 else 0)"
    and b: "bind_params 7 [email, password, role, name, company, phone,
               JNumber (if role = JString ''admin'' then 1 else 0)] = Inr ps"
    and p: "as_text pf (ps ! 1) = Some (user_password u)"
    by blast
  from i n have "select_user_by_id pf d' (Real i) = Some u"
    unfolding d' using select_new_user [of u "users_seq (db s)" "db s" pf i] by simp
  moreover from i n have "\<forall>x \<in> set (users (db s)). user_id x < user_id u"
    by (simp add: next_rowid_greater)
  ultimately have "signup pf now email password role name company phone s =
            (Json 200 (UserBody (Some u)), [],
             s\<lparr>db := (db s)\<lparr>users := users (db s) @ [u], users_seq := user_id u\<rparr>\<rparr>)
          \<and> user_is_approved u = (if role = JString ''admin'' then 1 else 0)
          \<and> bind_params 7 [email, password, role, name, company, phone,
               JNumber (if role = JString ''admin'' then 1 else 0)] = Inr ps
          \<and> as_text pf (ps ! 1) = Some (user_password u)
          \<and> (\<forall>x \<in> set (users (db s)). user_id x < user_id u)"
    using Inr x d' i a b p by (simp add: signup_def)
  then show ?thesis by blast
qed

lemma update_user_approve_Text:
  "integer_affinity pf (Text a) = Integer n \<Longrightarrow>
     s\<lparr>db := update_user_approve pf (db s) (Text a)\<rparr> = approve_user n s"
  by (simp add: update_user_approve_def approve_user_def int_column_eq_Text)

lemma update_user_approve_no_key:
  assumes "\<forall>n. integer_affinity pf (Text a) \<noteq> Integer n"
  shows "update_user_approve pf d (Text a) = d"
proof -
  have "\<not> int_column_eq pf i (Text a)" for i
    using assms by (simp add: int_column_eq_def)
  then show ?thesis by (simp add: update_user_approve_def)
qed

lemma approve_unfold:
  "approve pf h a s =
     (case auth pf (db s) h of
        Inl r \<Rightarrow> (r, [], s)
      | Inr u \<Rightarrow>
          if user_role u \<noteq> ''admin'' then (Json 403 (ErrorBody ''Forbidden''), [], s)
          else (Json 200 SuccessBody, [], s\<lparr>db := update_user_approve pf (db s) (Text a)\<rparr>))"
  by (simp add: approve_def with_auth_def)

lemma approve_cases:
  "snd (snd (approve pf h a s)) = s \<or>
   (\<exists>n. integer_affinity pf (Text a) = Integer n \<and>
      snd (snd (approve pf h a s)) = approve_user n s)"
proof (cases "\<exists>n. integer_affinity pf (Text a) = Integer n")
  case True
  then obtain n where "integer_affinity pf (Text a) = Integer n" ..
  then show ?thesis
    by (auto simp: approve_unfold update_user_approve_Text split: sum.splits)
next
  case False
  then have "update_user_approve pf (db s) (Text a) = db s"
    by (simp add: update_user_approve_no_key)
  then show ?thesis
    by (simp add: approve_unfold split: sum.splits)
qed

lemma approve_admin:
  assumes "auth pf (db s) h = Inr admin" "user_role admin = ''admin''"
    "integer_affinity pf (Text a) = Integer n"
  shows "approve pf h a s = (Json 200 SuccessBody, [], approve_user n s)"
  using assms by (simp add: approve_def with_auth_Inr update_user_approve_Text)

lemma users_unchanged_post_messages_send:
  "users (db (snd (snd (post_messages_send pf now h r c s)))) = users (db s)"
  unfolding post_messages_send_def
  by (rule with_auth_cases)
    (auto simp: add_message_def split: sum.splits dest!: insert_message_effect)

lemma users_unchanged_on_send_message:
  "users (db (snd (snd (on_send_message pf now a r c s)))) = users (db s)"
  by (auto simp: on_send_message_def Let_def add_message_def process_ended_def
      split: sum.splits dest!: insert_message_effect)

lemma users_unchanged_others:
  "\<not> writes_approval r \<Longrightarrow> users (db (server_after pf now r s)) = users (db s)"
  by (cases r)
    (simp_all add: server_after_def login_unchanged users_unchanged_post_loads
      users_unchanged_delete_loads users_unchanged_post_trucks users_unchanged_post_apply
      users_unchanged_post_reviews users_unchanged_post_messages_send get_messages_unchanged
      on_join_db users_unchanged_on_send_message)

text \<open>
  C7. A sign-up either fails with status 400 and changes nothing, or appends one user
  whose approval flag is 1 if the requested role is the string \<open>admin\<close> and 0 otherwise;
  the rows of the other users stay as they are. No request other than a sign-up or an
  admin's approval changes the \<open>users\<close> table at all, and an approval at most sets
  the flag of one key.
\<close>

theorem approval_flag_writers:
  "((\<exists>e. signup pf now email password role name company phone s =
         (Json 400 (ErrorBody e), [], s))
    \<or> (\<exists>u. signup pf now email password role name company phone s =
              (Json 200 (UserBody (Some u)), [],
               s\<lparr>db := (db s)\<lparr>users := users (db s) @ [u], users_seq := user_id u\<rparr>\<rparr>)
           \<and> user_is_approved u = (if role = JString ''admin'' then 1 else 0)))
   \<and> (\<not> writes_approval r \<longrightarrow> users (db (server_after pf now r s)) = users (db s))
   \<and> (server_after pf now (Approve authorization id_param) s = s
       \<or> (\<exists>n. server_after pf now (Approve authorization id_param) s = approve_user n s))"
proof (intro conjI impI)
  show "(\<exists>e. signup pf now email password role name company phone s =
         (Json 400 (ErrorBody e), [], s))
    \<or> (\<exists>u. signup pf now email password role name company phone s =
              (Json 200 (UserBody (Some u)), [],
               s\<lparr>db := (db s)\<lparr>users := users (db s) @ [u], users_seq := user_id u\<rparr>\<rparr>)
           \<and> user_is_approved u = (if role = JString ''admin'' then 1 else 0))"
    using signup_cases [of pf now email password role name company phone s] by blast
next
  assume "\<not> writes_approval r"
  then show "users (db (server_after pf now r s)) = users (db s)"
    by (rule users_unchanged_others)
next
  show "server_after pf now (Approve authorization id_param) s = s
       \<or> (\<exists>n. server_after pf now (Approve authorization id_param) s = approve_user n s)"
    using approve_cases [of pf authorization id_param s] by (auto simp: server_after_def)
qed

theorem approval_flag_writers_witness:
  "users (db (server_after sample_platform 13
       (PostMessagesSend (Some ''1'') (JNumber 2) (JString ''Hello'')) ann_and_bob))
     = users (db ann_and_bob)
   \<and> users (db (server_after sample_platform 13
       (PostReviews (Some ''1'') (JNumber 2) (JNumber 5) JNull) ann_and_bob))
     = users (db ann_and_bob)
   \<and> map user_is_approved (users (db ann_and_bob)) = [0, 1]
   \<and> map user_role (users (db ann_and_bob)) = [''driver'', ''admin'']
   \<and> map user_is_approved
       (users (db (server_after sample_platform 13 (Approve (Some ''2'') ''1'') ann_and_bob)))
     = [1, 1]"
proof -
  have "\<not> writes_approval (PostMessagesSend (Some ''1'') (JNumber 2) (JString ''Hello''))"
    and "\<not> writes_approval (PostReviews (Some ''1'') (JNumber 2) (JNumber 5) JNull)"
    by simp_all
  with approval_flag_writers [where s = ann_and_bob and now = 13 and pf = sample_platform
      and r = "PostMessagesSend (Some ''1'') (JNumber 2) (JString ''Hello'')"]
    approval_flag_writers [where s = ann_and_bob and now = 13 and pf = sample_platform
      and r = "PostReviews (Some ''1'') (JNumber 2) (JNumber 5) JNull"]
  have "users (db (server_after sample_platform 13
       (PostMessagesSend (Some ''1'') (JNumber 2) (JString ''Hello'')) ann_and_bob))
     = users (db ann_and_bob)"
    and "users (db (server_after sample_platform 13
       (PostReviews (Some ''1'') (JNumber 2) (JNumber 5) JNull) ann_and_bob))
     = users (db ann_and_bob)"
    by blast+
  moreover have "map user_is_approved (users (db ann_and_bob)) = [0, 1]"
    and "map user_role (users (db ann_and_bob)) = [''driver'', ''admin'']"
    and "map user_is_approved
       (users (db (server_after sample_platform 13 (Approve (Some ''2'') ''1'') ann_and_bob)))
     = [1, 1]"
    by code_simp+
  ultimately show ?thesis by blast
qed

text \<open>
  C9. A successful login answers with a stored user row, and that row's password is
  the text of the password parameter of the query; a successful sign-up answers with the
  row it has just stored, whose password is the text that the \<open>password\<close> column made
  of the password parameter of the insert. Both bodies are the whole row (\<open>SELECT *\<close>).
\<close>

theorem responses_carry_password:
  "(\<forall>b es s'. login pf email password s = (Json 200 b, es, s') \<longrightarrow>
      (\<exists>u \<in> set (users (db s)). b = UserBody (Some u) \<and>
         (\<exists>ps. bind_params 2 [email, password] = Inr ps \<and>
            as_text pf (ps ! 1) = Some (user_password u))))
   \<and> (\<forall>b es s'. signup pf now email password role name company phone s = (Json 200 b, es, s')
      \<longrightarrow>
      (\<exists>u \<in> set (users (db s')). b = UserBody (Some u) \<and>
         (\<exists>ps. bind_params 7 [email, password, role, name, company, phone,
                  JNumber (if role = JString ''admin'' then 1 else 0)] = Inr ps \<and>
            as_text pf (ps ! 1) = Some (user_password u))))"
proof (intro conjI allI impI)
  fix b es s'
  assume l: "login pf email password s = (Json 200 b, es, s')"
  then obtain u where c: "select_user_by_credentials pf (db s) email password = Inr (Some u)"
    and b: "b = UserBody (Some u)"
    by (auto simp: login_def split: sum.splits option.splits)
  from c obtain ps where p: "bind_params 2 [email, password] = Inr ps"
    and f: "find (\<lambda>u. text_column_eq pf (user_email u) (ps ! 0) \<and>
                     text_column_eq pf (user_password u) (ps ! 1)) (users (db s)) = Some u"
    by (auto simp: select_user_by_credentials_def and_then_Inr_iff)
  from f have "u \<in> set (users (db s))" and "text_column_eq pf (user_password u) (ps ! 1)"
    by (auto simp: find_Some_iff)
  with p b show "\<exists>u \<in> set (users (db s)). b = UserBody (Some u) \<and>
         (\<exists>ps. bind_params 2 [email, password] = Inr ps \<and>
            as_text pf (ps ! 1) = Some (user_password u))"
    by (auto simp: text_column_eq_def)
next
  fix b es s'
  assume g: "signup pf now email password role name company phone s = (Json 200 b, es, s')"
  from signup_cases [of pf now email password role name company phone s]
  show "\<exists>u \<in> set (users (db s')). b = UserBody (Some u) \<and>
         (\<exists>ps. bind_params 7 [email, password, role, name, company, phone,
                  JNumber (if role = JString ''admin'' then 1 else 0)] = Inr ps \<and>
            as_text pf (ps ! 1) = Some (user_password u))"
  proof
    assume "\<exists>e. signup pf now email password role name company phone s =
      (Json 400 (ErrorBody e), [], s)"
    with g show ?thesis by simp
  next
    assume "\<exists>u ps. signup pf now email password role name company phone s =
            (Json 200 (UserBody (Some u)), [],
             s\<lparr>db := (db s)\<lparr>users := users (db s) @ [u], users_seq := user_id u\<rparr>\<rparr>)
          \<and> user_is_approved u = (if role = JString ''admin'' then 1 else 0)
          \<and> bind_params 7 [email, password, role, name, company, phone,
               JNumber (if role = JString ''admin'' then 1 else 0)] = Inr ps
          \<and> as_text pf (ps ! 1) = Some (user_password u)
          \<and> (\<forall>x \<in> set (users (db s)). user_id x < user_id u)"
    then obtain u ps where
      u: "signup pf now email password role name company phone s =
            (Json 200 (UserBody (Some u)), [],
             s\<lparr>db := (db s)\<lparr>users := users (db s) @ [u], users_seq := user_id u\<rparr>\<rparr>)"
      and p: "bind_params 7 [email, password, role, name, company, phone,
               JNumber (if role = JString ''admin'' then 1 else 0)] = Inr ps"
        "as_text pf (ps ! 1) = Some (user_password u)" by blast
    from u g have "b = UserBody (Some u)"
      and "s' = s\<lparr>db := (db s)\<lparr>users := users (db s) @ [u], users_seq := user_id u\<rparr>\<rparr>"
      by simp_all
    then have "u \<in> set (users (db s'))" by simp
    with \<open>b = UserBody (Some u)\<close> p show ?thesis by blast
  qed
qed

theorem responses_carry_password_witness:
  "login sample_platform (JString ''ann@example.org'') (JString ''secret'') ann_and_bob =
     (Json 200
        (UserBody
           (Some \<lparr>user_id = 1, user_email = ''ann@example.org'', user_password = ''secret'',
                  user_role = ''driver'', user_name = ''Ann'', user_company = None,
                  user_phone = None, user_is_approved = 0, user_created_at = 10\<rparr>)),
      [], ann_and_bob)
   \<and> (\<exists>u \<in> set (users (db ann_and_bob)).
        UserBody
           (Some \<lparr>user_id = 1, user_email = ''ann@example.org'', user_password = ''secret'',
                  user_role = ''driver'', user_name = ''Ann'', user_company = None,
                  user_phone = None, user_is_approved = 0, user_created_at = 10\<rparr>)
          = UserBody (Some u)
        \<and> (\<exists>ps. bind_params 2 [JString ''ann@example.org'', JString ''secret''] = Inr ps \<and>
              as_text sample_platform (ps ! 1) = Some (user_password u)))
   \<and> fst (signup sample_platform 10 (JString ''ann@example.org'') (JString ''secret'')
            (JString ''driver'') (JString ''Ann'') JUndefined JUndefined init_server) =
       Json 200
        (UserBody
           (Some \<lparr>user_id = 1, user_email = ''ann@example.org'', user_password = ''secret'',
                  user_role = ''driver'', user_name = ''Ann'', user_company = None,
                  user_phone = None, user_is_approved = 0, user_created_at = 10\<rparr>))"
proof -
  have l: "login sample_platform (JString ''ann@example.org'') (JString ''secret'') ann_and_bob =
     (Json 200
        (UserBody
           (Some \<lparr>user_id = 1, user_email = ''ann@example.org'', user_password = ''secret'',
                  user_role = ''driver'', user_name = ''Ann'', user_company = None,
                  user_phone = None, user_is_approved = 0, user_created_at = 10\<rparr>)),
      [], ann_and_bob)" by code_simp
  have g: "fst (signup sample_platform 10 (JString ''ann@example.org'') (JString ''secret'')
            (JString ''driver'') (JString ''Ann'') JUndefined JUndefined init_server) =
       Json 200
        (UserBody
           (Some \<lparr>user_id = 1, user_email = ''ann@example.org'', user_password = ''secret'',
                  user_role = ''driver'', user_name = ''Ann'', user_company = None,
                  user_phone = None, user_is_approved = 0, user_created_at = 10\<rparr>))" by code_simp
  note w = responses_carry_password [of sample_platform "JString ''ann@example.org''"
      "JString ''secret''" ann_and_bob]
  from w have "\<forall>b es s'. login sample_platform (JString ''ann@example.org'') (JString ''secret'')
      ann_and_bob = (Json 200 b, es, s') \<longrightarrow>
      (\<exists>u \<in> set (users (db ann_and_bob)). b = UserBody (Some u) \<and>
         (\<exists>ps. bind_params 2 [JString ''ann@example.org'', JString ''secret''] = Inr ps \<and>
            as_text sample_platform (ps ! 1) = Some (user_password u)))"
    by (rule conjunct1)
  from this [rule_format, OF l] l g show ?thesis by (intro conjI)
qed

section \<open>Approval changes one flag\<close>

lemma find_mapped: "find P (map f xs) = map_option f (find (P \<circ> f) xs)"
  by (induction xs) simp_all

lemma select_user_after_approve:
  "select_user_by_id pf (update_user_approve pf d q) p =
     map_option (\<lambda>u. if int_column_eq pf (user_id u) q then u\<lparr>user_is_approved := 1\<rparr> else u)
       (select_user_by_id pf d p)"
proof -
  let ?f = "\<lambda>u. if int_column_eq pf (user_id u) q then u\<lparr>user_is_approved := 1\<rparr> else u"
  let ?P = "\<lambda>u. int_column_eq pf (user_id u) p"
  have c: "?P \<circ> ?f = ?P" by (auto simp: fun_eq_iff)
  have "select_user_by_id pf (update_user_approve pf d q) p = find ?P (map ?f (users d))"
    by (simp add: select_user_by_id_def update_user_approve_def)
  also have "\<dots> = map_option ?f (find (?P \<circ> ?f) (users d))" by (rule find_mapped)
  also have "\<dots> = map_option ?f (find ?P (users d))" by (simp only: c)
  finally show ?thesis by (simp add: select_user_by_id_def)
qed

lemma auth_after_approve:
  assumes "auth pf (db s) h = Inr u"
  shows "\<exists>u'. auth pf (update_user_approve pf (db s) q) h = Inr u' \<and> user_role u' = user_role u"
proof -
  from assms obtain x where x: "h = Some x" "x \<noteq> []"
    and u: "select_user_by_id pf (db s) (Text x) = Some u"
    by (auto simp: auth_Inr_iff)
  let ?u' = "if int_column_eq pf (user_id u) q then u\<lparr>user_is_approved := 1\<rparr> else u"
  from u have "select_user_by_id pf (update_user_approve pf (db s) q) (Text x) = Some ?u'"
    by (simp add: select_user_after_approve)
  with x have "auth pf (update_user_approve pf (db s) q) h = Inr ?u'"
    by (simp add: auth_Inr_iff)
  moreover have "user_role ?u' = user_role u" by simp
  ultimately show ?thesis by blast
qed

lemma update_user_approve_idem:
  "update_user_approve pf (update_user_approve pf d q) q = update_user_approve pf d q"
  by (simp add: update_user_approve_def comp_def)

lemma approve_twice:
  "snd (snd (approve pf h a (snd (snd (approve pf h a s))))) = snd (snd (approve pf h a s))"
proof (cases "auth pf (db s) h")
  case (Inl r)
  then show ?thesis by (simp add: approve_unfold)
next
  case (Inr u)
  show ?thesis
  proof (cases "user_role u = ''admin''")
    case False
    with Inr show ?thesis by (simp add: approve_unfold)
  next
    case True
    from auth_after_approve [OF Inr, of "Text a"] obtain u' where
      u': "auth pf (update_user_approve pf (db s) (Text a)) h = Inr u'" and "user_role u' = user_role u"
      by blast
    with True Inr show ?thesis
      by (simp add: approve_unfold update_user_approve_idem)
  qed
qed

lemma approve_user_noop:
  assumes "\<forall>u \<in> set (users (db s)). user_id u = n \<longrightarrow> user_is_approved u = 1"
  shows "approve_user n s = s"
proof -
  have "(if user_id u = n then u\<lparr>user_is_approved := 1\<rparr> else u) = u"
    if "u \<in> set (users (db s))" for u
    using assms that by (cases u) auto
  then have "map (\<lambda>u. if user_id u = n then u\<lparr>user_is_approved := 1\<rparr> else u) (users (db s))
      = users (db s)"
    by (rule map_idI)
  then show ?thesis by (simp add: approve_user_def)
qed

lemma approve_publishes_nothing: "fst (snd (approve pf h a s)) = []"
  by (simp add: approve_unfold split: sum.splits)

text \<open>
  C10. An approval by an admin, for a path parameter that SQLite reads as the key \<open>n\<close>,
  answers 200 and leaves the server \<open>approve_user n\<close>: the flag of the user with key
  \<open>n\<close> is 1; the other fields of that row, the other rows, the other tables, the key
  counters and the rooms are as before. Any other call of the route changes nothing.
  Nothing is published. Approving twice is approving once, and approving a user whose flag
  is already 1 changes nothing.
\<close>

theorem approve_frame:
  "(\<forall>admin n. auth pf (db s) authorization = Inr admin \<and> user_role admin = ''admin'' \<and>
       integer_affinity pf (Text id_param) = Integer n
       \<longrightarrow> approve pf authorization id_param s = (Json 200 SuccessBody, [], approve_user n s))
   \<and> (snd (snd (approve pf authorization id_param s)) = s
       \<or> (\<exists>n. integer_affinity pf (Text id_param) = Integer n \<and>
             snd (snd (approve pf authorization id_param s)) = approve_user n s))
   \<and> fst (snd (approve pf authorization id_param s)) = []
   \<and> (\<forall>n. approve_user n s =
          s\<lparr>db := (db s)\<lparr>users := map (\<lambda>u. if user_id u = n then u\<lparr>user_is_approved := 1\<rparr> else u)
                                    (users (db s))\<rparr>\<rparr>)
   \<and> snd (snd (approve pf authorization id_param (snd (snd (approve pf authorization id_param s))))) =
       snd (snd (approve pf authorization id_param s))
   \<and> (\<forall>n. (\<forall>u \<in> set (users (db s)). user_id u = n \<longrightarrow> user_is_approved u = 1)
         \<longrightarrow> approve_user n s = s)"
proof (intro conjI allI impI)
  fix admin n
  assume "auth pf (db s) authorization = Inr admin \<and> user_role admin = ''admin'' \<and>
       integer_affinity pf (Text id_param) = Integer n"
  then show "approve pf authorization id_param s = (Json 200 SuccessBody, [], approve_user n s)"
    by (simp add: approve_admin)
next
  show "snd (snd (approve pf authorization id_param s)) = s
       \<or> (\<exists>n. integer_affinity pf (Text id_param) = Integer n \<and>
             snd (snd (approve pf authorization id_param s)) = approve_user n s)"
    by (rule approve_cases)
next
  show "fst (snd (approve pf authorization id_param s)) = []"
    by (rule approve_publishes_nothing)
next
  fix n
  show "approve_user n s =
          s\<lparr>db := (db s)\<lparr>users := map (\<lambda>u. if user_id u = n then u\<lparr>user_is_approved := 1\<rparr> else u)
                                    (users (db s))\<rparr>\<rparr>"
    by (simp add: approve_user_def)
next
  show "snd (snd (approve pf authorization id_param (snd (snd (approve pf authorization id_param s))))) =
       snd (snd (approve pf authorization id_param s))"
    by (rule approve_twice)
next
  fix n
  assume "\<forall>u \<in> set (users (db s)). user_id u = n \<longrightarrow> user_is_approved u = 1"
  then show "approve_user n s = s" by (rule approve_user_noop)
qed

theorem approve_frame_witness:
  "approve sample_platform (Some ''2'') ''1'' chatting = (Json 200 SuccessBody, [], approve_user 1 chatting)
   \<and> map user_is_approved (users (db chatting)) = [0, 1]
   \<and> map user_is_approved (users (db (approve_user 1 chatting))) = [1, 1]
   \<and> approve_user 2 chatting = chatting
   \<and> approve sample_platform (Some ''2'') ''2'' chatting = (Json 200 SuccessBody, [], chatting)
   \<and> approve sample_platform (Some ''1'') ''1'' chatting = (Json 403 (ErrorBody ''Forbidden''), [], chatting)"
proof -
  have a: "auth sample_platform (db chatting) (Some ''2'') = Inr (hd (tl (users (db chatting))))" by code_simp
  have r: "user_role (hd (tl (users (db chatting)))) = ''admin''" by code_simp
  have p1: "integer_affinity sample_platform (Text ''1'') = Integer 1" by code_simp
  have p2: "integer_affinity sample_platform (Text ''2'') = Integer 2" by code_simp
  have appr: "\<forall>u \<in> set (users (db chatting)). user_id u = 2 \<longrightarrow> user_is_approved u = 1"
    by code_simp
  have v: "map user_is_approved (users (db chatting)) = [0, 1]"
    "map user_is_approved (users (db (approve_user 1 chatting))) = [1, 1]"
    "approve sample_platform (Some ''1'') ''1'' chatting = (Json 403 (ErrorBody ''Forbidden''), [], chatting)"
    by code_simp+
  note w1 = approve_frame [of sample_platform chatting "Some ''2''" "''1''"]
  note w2 = approve_frame [of sample_platform chatting "Some ''2''" "''2''"]
  from w1 a r p1 have 1: "approve sample_platform (Some ''2'') ''1'' chatting =
      (Json 200 SuccessBody, [], approve_user 1 chatting)" by blast
  from w2 appr have 2: "approve_user 2 chatting = chatting" by blast
  from w2 a r p2 have "approve sample_platform (Some ''2'') ''2'' chatting =
      (Json 200 SuccessBody, [], approve_user 2 chatting)" by blast
  with 2 have 3: "approve sample_platform (Some ''2'') ''2'' chatting = (Json 200 SuccessBody, [], chatting)"
    by simp
  from 1 2 3 v show ?thesis by (intro conjI)
qed

section \<open>Keys as decimal text, and the socket's fan-out\<close>

text \<open>
  On \<open>sample_platform\<close> the decimal text of an integer denotes that integer. So a key
  written in decimal, as the client writes it into the \<open>authorization\<close> header and the
  path, resolves to itself, and the rooms of two different keys differ.
\<close>

lemma digit_value_digit_char: "d < 10 \<Longrightarrow> digit_value (digit_char d) = Some d"
proof -
  assume "d < 10"
  then have "d \<in> {0, 1, 2, 3, 4, 5, 6, 7, 8, 9}" by auto
  then show ?thesis
    by (elim insertE emptyE) (simp_all add: digit_value_def digit_char_def)
qed

lemma digit_char_not_sign: "digit_char d \<noteq> CHR ''-'' \<and> digit_char d \<noteq> CHR ''+''"
proof -
  define e where "e = d mod 10"
  then have "e < 10" by simp
  then have "e \<in> {0, 1, 2, 3, 4, 5, 6, 7, 8, 9}" by auto
  then have "''0123456789'' ! e \<noteq> CHR ''-'' \<and> ''0123456789'' ! e \<noteq> CHR ''+''"
    by (elim insertE emptyE) simp_all
  then show ?thesis by (simp add: digit_char_def e_def)
qed

lemma nat_of_digits_append:
  "nat_of_digits acc (xs @ ys) =
     (case nat_of_digits acc xs of None \<Rightarrow> None | Some v \<Rightarrow> nat_of_digits v ys)"
  by (induction xs arbitrary: acc) (simp_all split: option.splits)

lemma nat_of_digits_string_of_nat: "nat_of_digits 0 (string_of_nat n) = Some n"
proof (induction n rule: string_of_nat.induct)
  case (1 n)
  show ?case
  proof (cases "n < 10")
    case True
    then show ?thesis
      by (subst string_of_nat.simps) (simp add: digit_value_digit_char)
  next
    case False
    with 1 have "nat_of_digits 0 (string_of_nat (n div 10)) = Some (n div 10)" by simp
    with False show ?thesis
      by (subst string_of_nat.simps) (simp add: nat_of_digits_append digit_value_digit_char)
  qed
qed

lemma string_of_nat_first: "\<exists>d cs. string_of_nat n = digit_char d # cs"
proof (induction n rule: string_of_nat.induct)
  case (1 n)
  show ?case
  proof (cases "n < 10")
    case True
    then show ?thesis by (subst string_of_nat.simps) auto
  next
    case False
    with 1 obtain d cs where "string_of_nat (n div 10) = digit_char d # cs" by blast
    with False show ?thesis by (subst string_of_nat.simps) auto
  qed
qed

lemma plain_decimal_string_of_int: "plain_decimal (string_of_int i) = Some i"
proof (cases "i < 0")
  case True
  obtain d cs where "string_of_nat (nat (- i)) = digit_char d # cs"
    using string_of_nat_first by blast
  then have "string_of_nat (nat (- i)) \<noteq> []" by simp
  with True show ?thesis
    by (simp add: plain_decimal_def string_of_int_def nat_of_digits_string_of_nat)
next
  case False
  obtain d cs where s: "string_of_nat (nat i) = digit_char d # cs"
    using string_of_nat_first by blast
  have "nat_of_digits 0 (digit_char d # cs) = Some (nat i)"
    using nat_of_digits_string_of_nat [of "nat i"] s by simp
  with False s show ?thesis
    using digit_char_not_sign [of d]
    by (simp add: plain_decimal_def string_of_int_def del: nat_of_digits.simps)
qed

lemma string_of_int_inject: "string_of_int i = string_of_int j \<longleftrightarrow> i = j"
proof
  assume "string_of_int i = string_of_int j"
  then have "plain_decimal (string_of_int i) = plain_decimal (string_of_int j)" by simp
  then show "i = j" by (simp only: plain_decimal_string_of_int option.inject)
qed simp

lemma user_room_number_inject:
  "user_room sample_platform (JNumber i) = user_room sample_platform (JNumber j) \<longleftrightarrow> i = j"
  by (simp add: user_room_def sample_platform_def string_of_int_inject)

lemma key_text_resolves: "integer_affinity sample_platform (Text (string_of_int i)) = Integer i"
  by (simp add: integer_affinity_def sample_platform_def plain_decimal_string_of_int)

text \<open>
  The route publishes nothing, whatever it is sent and whatever the platform. After a send
  over the socket between users with keys \<open>a\<close> and \<open>b\<close>, a connection that joined as
  \<open>u\<close> alone receives nothing when \<open>u\<close> is neither of them and one event when \<open>u\<close> is
  one of two different users; a user who writes to himself receives the event twice.
\<close>

lemma post_messages_send_publishes_nothing:
  "fst (snd (post_messages_send pf now h r c s)) = []"
  unfolding post_messages_send_def
  by (rule with_auth_cases) (auto split: sum.splits)

lemma socket_send_reaches_participants:
  assumes "a \<in> set (map user_id (users (db s)))" and "b \<in> set (map user_id (users (db s)))"
    and "\<forall>room. (k, room) \<in> set (rooms s) \<longleftrightarrow> room = user_room sample_platform (JNumber u)"
  shows "u \<noteq> a \<Longrightarrow> u \<noteq> b \<Longrightarrow>
           delivered (rooms s) k
             (fst (snd (on_send_message sample_platform now (JNumber a) (JNumber b) (JString t) s)))
             = []"
    and "u = b \<Longrightarrow> a \<noteq> b \<Longrightarrow>
           delivered (rooms s) k
             (fst (snd (on_send_message sample_platform now (JNumber a) (JNumber b) (JString t) s)))
             = [(user_room sample_platform (JNumber b), ''receive_message'',
                 Some (new_message now (db s) a b t))]"
    and "u = a \<Longrightarrow> a \<noteq> b \<Longrightarrow>
           delivered (rooms s) k
             (fst (snd (on_send_message sample_platform now (JNumber a) (JNumber b) (JString t) s)))
             = [(user_room sample_platform (JNumber a), ''receive_message'',
                 Some (new_message now (db s) a b t))]"
    and "u = a \<Longrightarrow> a = b \<Longrightarrow>
           length (delivered (rooms s) k
             (fst (snd (on_send_message sample_platform now (JNumber a) (JNumber b) (JString t) s))))
             = 2"
proof -
  let ?ps = "fst (snd (on_send_message sample_platform now (JNumber a) (JNumber b) (JString t) s))"
  let ?m = "Some (new_message now (db s) a b t)"
  have ka: "user_key sample_platform (db s) ([Real a, Real b, Text t] ! 0) = Some a"
    and kb: "user_key sample_platform (db s) ([Real a, Real b, Text t] ! 1) = Some b"
    and kt: "as_text sample_platform ([Real a, Real b, Text t] ! 2) = Some t"
    using assms(1,2) by (simp_all add: user_key_Real as_text_Text)
  have ps: "?ps = [(user_room sample_platform (JNumber b), ''receive_message'', ?m),
                   (user_room sample_platform (JNumber a), ''receive_message'', ?m)]"
    by (simp add: on_send_message_success [OF bind_params_plain(1) ka kb kt])
  have d: "delivered (rooms s) k ps =
             filter (\<lambda>(room, event, payload). room = user_room sample_platform (JNumber u)) ps"
    for ps
    using assms(3) by (simp add: delivered_def)
  show "u \<noteq> a \<Longrightarrow> u \<noteq> b \<Longrightarrow> delivered (rooms s) k ?ps = []"
    unfolding ps d by (simp add: user_room_number_inject)
  show "u = b \<Longrightarrow> a \<noteq> b \<Longrightarrow>
      delivered (rooms s) k ?ps =
        [(user_room sample_platform (JNumber b), ''receive_message'', ?m)]"
    unfolding ps d by (simp add: user_room_number_inject)
  show "u = a \<Longrightarrow> a \<noteq> b \<Longrightarrow>
      delivered (rooms s) k ?ps =
        [(user_room sample_platform (JNumber a), ''receive_message'', ?m)]"
    unfolding ps d by (simp add: user_room_number_inject)
  show "u = a \<Longrightarrow> a = b \<Longrightarrow> length (delivered (rooms s) k ?ps) = 2"
    unfolding ps d by simp
qed

lemma in_conversation_commute: "in_conversation a b = in_conversation b a"
  by (auto simp: fun_eq_iff in_conversation_def)

text \<open>
  The symmetry of the history route, for two users who each name the other by the
  decimal text of the key.
\<close>

lemma history_symmetric_for_keys:
  assumes "auth sample_platform (db s) (Some (string_of_int a)) = Inr ua"
    and "auth sample_platform (db s) (Some (string_of_int b)) = Inr ub"
  shows "get_messages sample_platform (Some (string_of_int a)) (string_of_int b) s =
         get_messages sample_platform (Some (string_of_int b)) (string_of_int a) s"
proof -
  from assms have k: "user_id ua = a" "user_id ub = b"
    by (auto simp: auth_Inr_iff key_text_resolves int_column_eq_def
        dest!: select_user_by_id_Some)
  have "history sample_platform (db s) a (string_of_int b) =
      history sample_platform (db s) b (string_of_int a)"
    by (simp only: history_filter [OF key_text_resolves] in_conversation_commute [of a b])
  with assms k show ?thesis by (simp add: get_messages_history)
qed

text \<open>
  C2 at a failing input. Connection 7 has joined as Bob. Ann sends Bob a message over
  the route: it is stored and answered with status 200, and nothing is published, so the
  connection receives nothing. The same send over the socket publishes to both rooms and
  the connection receives the event.
\<close>

theorem route_send_publishes_nothing:
  "handle sample_platform 13 (PostMessagesSend (Some ''1'') (JNumber 2) (JString ''Hello''))
       bob_listening =
     (Json 200
        (MessageBody
           (Some \<lparr>msg_id = 1, msg_sender_id = 1, msg_receiver_id = 2, msg_content = ''Hello'',
                  msg_created_at = 13\<rparr>)),
      [],
      bob_listening\<lparr>db := (db bob_listening)
        \<lparr>messages := [\<lparr>msg_id = 1, msg_sender_id = 1, msg_receiver_id = 2,
                        msg_content = ''Hello'', msg_created_at = 13\<rparr>],
         messages_seq := 1\<rparr>\<rparr>)
   \<and> rooms bob_listening = [(7, ''user_2'')]
   \<and> delivered (rooms bob_listening) 7
       (fst (snd (handle sample_platform 13
          (PostMessagesSend (Some ''1'') (JNumber 2) (JString ''Hello'')) bob_listening))) = []
   \<and> delivered (rooms bob_listening) 7
       (fst (snd (handle sample_platform 13
          (SendMessage (JNumber 1) (JNumber 2) (JString ''Hello'')) bob_listening))) =
       [(''user_2'', ''receive_message'',
         Some \<lparr>msg_id = 1, msg_sender_id = 1, msg_receiver_id = 2, msg_content = ''Hello'',
                msg_created_at = 13\<rparr>)]"
  by code_simp

end
